theory Spec2Isabelle
  imports Main
begin

section \<open>Character cards: validators and converters\<close>

text \<open>
  The library \<open>character-card-utils\<close> (\<open>src/index.ts\<close>) exports five validators built
  with zod (\<open>v1\<close>, \<open>entry\<close>, \<open>book\<close>, \<open>v2\<close>, \<open>backfilledV2\<close>) and five functions
  (\<open>parseToV2\<close>, \<open>safeParseToV2\<close>, \<open>v1ToV2\<close>, \<open>backfillV2\<close>,
  \<open>backfillV2WithObsolescenceNotice\<close>). This theory embeds them over untyped JavaScript
  values: the validators as schemas run by a model of zod's parser, the functions as HOL
  functions, a thrown exception as the left summand of the result.
\<close>

section \<open>JavaScript values\<close>

text \<open>
  The library validates "unknown" data, so the embedding works on untyped JavaScript
  values. An object is its list of own enumerable properties in insertion order; a
  property is read with \<open>get\<close> (the first binding of a key counts, a missing key reads
  as \<open>undefined\<close>) and defined with \<open>put\<close> (an existing key keeps its position, a new
  key is appended), as \<open>obj[k]\<close> reads and as a property of an object literal or of
  a spread defines. Prototypes are not modelled: the values are plain data, as
  \<open>JSON.parse\<close> makes them, and such an object can have an own property of any name,
  \<open>__proto__\<close> too. The validators never look at the magnitude of a number, only at
  whether it is \<open>NaN\<close>, so a number is an \<open>int\<close> or \<open>JNaN\<close>.
\<close>

datatype jsval =
    JUndefined
  | JNull
  | JBool bool
  | JNum int
  | JNaN
  | JStr string
  | JArr "jsval list"
  | JObj "(string \<times> jsval) list"

type_synonym props = "(string \<times> jsval) list"

definition get :: "props \<Rightarrow> string \<Rightarrow> jsval" where
  "get kvs k = (case map_of kvs k of None \<Rightarrow> JUndefined | Some v \<Rightarrow> v)"

definition has_key :: "('k \<times> 'v) list \<Rightarrow> 'k \<Rightarrow> bool" where
  "has_key kvs k = (k \<in> set (map fst kvs))"

primrec put :: "'k \<Rightarrow> 'v \<Rightarrow> ('k \<times> 'v) list \<Rightarrow> ('k \<times> 'v) list" where
  "put k v [] = [(k, v)]"
| "put k v (p # ps) = (if fst p = k then (k, v) # ps else p # put k v ps)"

text \<open>
  \<open>{...base, k1: v1, k2: v2}\<close> and zod's \<open>{...a.shape, ...b.shape}\<close>: the properties
  of \<open>base\<close>, then each new binding written in turn.
\<close>

definition assign_all :: "('k \<times> 'v) list \<Rightarrow> ('k \<times> 'v) list \<Rightarrow> ('k \<times> 'v) list" where
  "assign_all base new = fold (\<lambda>(k, v). put k v) new base"

text \<open>The properties and the elements a value has; none for a value of another kind.\<close>

fun props_of :: "jsval \<Rightarrow> props" where
  "props_of (JObj kvs) = kvs"
| "props_of _ = []"

fun elems_of :: "jsval \<Rightarrow> jsval list" where
  "elems_of (JArr xs) = xs"
| "elems_of _ = []"

text \<open>The keys a \<open>for (const key in obj)\<close> loop visits: every key once.\<close>

definition own_keys :: "props \<Rightarrow> string list" where
  "own_keys kvs = remdups (map fst kvs)"

subsection \<open>Decimal index keys, for spreading arrays and strings\<close>

fun show_nat :: "nat \<Rightarrow> string" where
  "show_nat n =
     (if n < 10 then [char_of (48 + n)]
      else show_nat (n div 10) @ [char_of (48 + n mod 10)])"

declare show_nat.simps [simp del]

text \<open>
  Object spread \<open>{...x}\<close> copies the own enumerable properties of \<open>x\<close>: the properties
  of an object, the indexed elements of an array, the indexed characters of a string,
  and nothing for \<open>undefined\<close>, \<open>null\<close>, a boolean or a number.
\<close>

fun spread :: "jsval \<Rightarrow> props" where
  "spread (JObj kvs) = kvs"
| "spread (JArr xs) = map (\<lambda>(i, x). (show_nat i, x)) (enumerate 0 xs)"
| "spread (JStr s) = map (\<lambda>(i, c). (show_nat i, JStr [c])) (enumerate 0 s)"
| "spread _ = []"

subsection \<open>Structural equality\<close>

text \<open>
  Structural equality as the test suite's \<open>toEqual\<close> decides it: arrays are compared
  element by element, objects property by property whatever the order of their keys,
  and a property holding \<open>undefined\<close> is the same as a missing one.
\<close>

lemma size_get_le: "size (get kvs k) \<le> size_list (size_prod (\<lambda>_. 0) size) kvs"
  by (induction kvs) (auto simp: get_def)

function struct_eq :: "jsval \<Rightarrow> jsval \<Rightarrow> bool" where
  "struct_eq (JObj a) y =
     (case y of
        JObj b \<Rightarrow> (\<forall>k \<in> set (map fst a @ map fst b). struct_eq (get a k) (get b k))
      | _ \<Rightarrow> False)"
| "struct_eq (JArr xs) y =
     (case y of
        JArr ys \<Rightarrow> length xs = length ys \<and> (\<forall>i \<in> set [0..<length xs]. struct_eq (xs ! i) (ys ! i))
      | _ \<Rightarrow> False)"
| "struct_eq JUndefined y = (y = JUndefined)"
| "struct_eq JNull y = (y = JNull)"
| "struct_eq (JBool b) y = (y = JBool b)"
| "struct_eq (JNum n) y = (y = JNum n)"
| "struct_eq JNaN y = (y = JNaN)"
| "struct_eq (JStr s) y = (y = JStr s)"
  by pat_completeness auto
termination
proof (relation "measure (\<lambda>(x, y). size x)")
  show "wf (measure (\<lambda>(x, y). size x))" by simp
next
  fix a :: props and y b k
  show "((get a k, get b k), (JObj a, y)) \<in> measure (\<lambda>(x, y). size x)"
    using size_get_le [of a k] by simp
next
  fix xs :: "jsval list" and y ys i
  assume "i \<in> set [0..<length xs]"
  then have "xs ! i \<in> set xs" by simp
  then have "size (xs ! i) \<le> size_list size xs"
    by (simp add: size_list_estimation')
  then show "((xs ! i, ys ! i), (JArr xs, y)) \<in> measure (\<lambda>(x, y). size x)"
    by simp
qed

section \<open>The validation library (zod 3)\<close>

text \<open>
  The program builds its validators from the combinators of the zod library
  (\<open>z.string()\<close>, \<open>z.object({...})\<close>, \<open>a.merge(b)\<close>, ...). A schema is the syntax
  tree of such an expression and \<open>parse\<close> is the library's synchronous \<open>_parse\<close>:
  it returns the parsed value, or the issues that were recorded. Only the combinators
  the program uses are modelled. An object schema is created by \<open>z.object\<close> with the
  library's default policy for unknown keys, \<open>strip\<close>, which no schema of this program
  changes (none calls \<open>passthrough\<close> or \<open>strict\<close>): keys outside the shape are neither
  reported nor copied to the output. The model follows release 3.21 of the library, the
  one the package asks for. Later releases of zod 3 differ in one point, a record keeps
  a property that holds \<open>undefined\<close> where 3.21 drops it; the property reads
  \<open>undefined\<close> either way.
\<close>

datatype ZodParsedType =
  TString | TNan | TNumber | TBoolean | TUndefined | TNull | TArray | TObject

fun getParsedType :: "jsval \<Rightarrow> ZodParsedType" where
  "getParsedType JUndefined = TUndefined"
| "getParsedType (JStr s) = TString"
| "getParsedType JNaN = TNan"
| "getParsedType (JNum n) = TNumber"
| "getParsedType (JBool b) = TBoolean"
| "getParsedType (JArr xs) = TArray"
| "getParsedType JNull = TNull"
| "getParsedType (JObj kvs) = TObject"

datatype path_elem = PKey string | PIdx nat

type_synonym path = "path_elem list"

text \<open>
  An issue of a \<open>ZodError\<close>: its code with the code's own fields, and the path of the
  offending value. The message is a function of these and is left out.
\<close>

datatype issue =
    InvalidType ZodParsedType ZodParsedType path
  | InvalidLiteral jsval jsval path
  | InvalidUnion "issue list list" path

datatype error = ZodError "issue list" | TypeError

type_synonym parse_result = "issue list + jsval"

datatype schema =
    ZString
  | ZNumber
  | ZBoolean
  | ZAny
  | ZLiteral string
  | ZOptional schema
  | ZArray schema
  | ZRecord schema
  | ZUnion "schema list"
  | ZObject "(string \<times> schema) list"

text \<open>
  An aborted parse (\<open>INVALID\<close>) has no value: reading it gives \<open>undefined\<close>. The
  issues of the children of an array or object all go to the same list, in the order
  the children are parsed, and the parent is aborted as soon as one child is.
\<close>

definition issues_of :: "parse_result \<Rightarrow> issue list" where
  "issues_of r = (case r of Inl is \<Rightarrow> is | Inr v \<Rightarrow> [])"

definition value_of :: "parse_result \<Rightarrow> jsval" where
  "value_of r = (case r of Inl is \<Rightarrow> JUndefined | Inr v \<Rightarrow> v)"

definition mergeArray :: "parse_result list \<Rightarrow> parse_result" where
  "mergeArray rs =
     (if list_ex isl rs then Inl (concat (map issues_of rs))
      else Inr (JArr (map value_of rs)))"

text \<open>
  \<open>mergeObjectSync\<close>: a pair is a key, the result for its value, and \<open>alwaysSet\<close>.
  The output is built by \<open>finalObject[key] = value\<close>. A key whose parsed value is
  \<open>undefined\<close> is written only when \<open>alwaysSet\<close> holds. The key \<open>__proto__\<close> never
  becomes a property of the output: the assignment goes to the prototype setter of the
  fresh object, and the later releases of zod 3 skip the key by an explicit test.
\<close>

definition mergeObjectSync :: "(string \<times> parse_result \<times> bool) list \<Rightarrow> parse_result" where
  "mergeObjectSync pairs =
     (if list_ex (\<lambda>(k, r, a). isl r) pairs
      then Inl (concat (map (\<lambda>(k, r, a). issues_of r) pairs))
      else Inr (JObj (map (\<lambda>(k, r, a). (k, value_of r))
                       (filter (\<lambda>(k, r, a). k \<noteq> ''__proto__'' \<and> (value_of r \<noteq> JUndefined \<or> a))
                          pairs))))"

lemma size_shape_member:
  "(k, s) \<in> set shape \<Longrightarrow> size s \<le> size_list (size_prod (\<lambda>_. 0) size) shape"
  by (induction shape) auto

lemma size_options_member:
  "s \<in> set options \<Longrightarrow> size s \<le> size_list size options"
  by (induction options) auto

function parse :: "schema \<Rightarrow> path \<Rightarrow> jsval \<Rightarrow> parse_result" where
  "parse ZString p d =
     (if getParsedType d \<noteq> TString then Inl [InvalidType TString (getParsedType d) p]
      else Inr d)"
| "parse ZNumber p d =
     (if getParsedType d \<noteq> TNumber then Inl [InvalidType TNumber (getParsedType d) p]
      else Inr d)"
| "parse ZBoolean p d =
     (if getParsedType d \<noteq> TBoolean then Inl [InvalidType TBoolean (getParsedType d) p]
      else Inr d)"
| "parse ZAny p d = Inr d"
| "parse (ZLiteral v) p d =
     (if d \<noteq> JStr v then Inl [InvalidLiteral (JStr v) d p] else Inr d)"
| "parse (ZOptional s) p d =
     (if getParsedType d = TUndefined then Inr JUndefined else parse s p d)"
| "parse (ZArray s) p d =
     (if getParsedType d \<noteq> TArray then Inl [InvalidType TArray (getParsedType d) p]
      else mergeArray (map (\<lambda>(i, x). parse s (p @ [PIdx i]) x) (enumerate 0 (elems_of d))))"
| "parse (ZRecord s) p d =
     (if getParsedType d \<noteq> TObject then Inl [InvalidType TObject (getParsedType d) p]
      else mergeObjectSync
             (map (\<lambda>k. (k, parse s (p @ [PKey k]) (get (props_of d) k), False))
                  (own_keys (props_of d))))"
| "parse (ZUnion options) p d =
     (case find (\<lambda>r. \<not> isl r) (map (\<lambda>s. parse s p d) options) of
        Some r \<Rightarrow> r
      | None \<Rightarrow>
          Inl [InvalidUnion
                 (filter (\<lambda>is. is \<noteq> []) (map (\<lambda>s. issues_of (parse s p d)) options)) p])"
| "parse (ZObject shape) p d =
     (if getParsedType d \<noteq> TObject then Inl [InvalidType TObject (getParsedType d) p]
      else mergeObjectSync
             (map (\<lambda>(k, s). (k, parse s (p @ [PKey k]) (get (props_of d) k),
                               has_key (props_of d) k))
                  shape))"
  by pat_completeness auto
termination
proof (relation "measure (\<lambda>(s, p, d). size s)")
  show "wf (measure (\<lambda>(s, p, d). size s))" by simp
next
  fix shape :: "(string \<times> schema) list" and p :: path and d :: jsval and x k s
  assume "x \<in> set shape" and "(k, s) = x"
  then have "size s \<le> size_list (size_prod (\<lambda>_. 0) size) shape"
    using size_shape_member [of k s shape] by simp
  then show "((s, p @ [PKey k], get (props_of d) k), (ZObject shape, p, d))
               \<in> measure (\<lambda>(s, p, d). size s)"
    by simp
qed (auto simp: less_Suc_eq_le size_options_member)

datatype SafeParseReturnType = SafeParseSuccess jsval | SafeParseError error

definition safeParse :: "schema \<Rightarrow> jsval \<Rightarrow> SafeParseReturnType" where
  "safeParse s d =
     (case parse s [] d of
        Inl is \<Rightarrow> SafeParseError (ZodError is)
      | Inr v \<Rightarrow> SafeParseSuccess v)"

text \<open>
  \<open>a.merge(b)\<close>, defined for object schemas only: the shape \<open>{...a.shape, ...b.shape}\<close>
  with the unknown-keys policy of \<open>b\<close> (always \<open>strip\<close> here).
\<close>

fun merge :: "schema \<Rightarrow> schema \<Rightarrow> schema" where
  "merge (ZObject a) (ZObject b) = ZObject (assign_all a b)"
| "merge a b = b"

section \<open>The validators of the program\<close>

definition v1 :: schema where
  "v1 = ZObject
     [(''name'', ZString),
      (''description'', ZString),
      (''personality'', ZString),
      (''scenario'', ZString),
      (''first_mes'', ZString),
      (''mes_example'', ZString)]"

definition entry :: schema where
  "entry = ZObject
     [(''keys'', ZArray ZString),
      (''content'', ZString),
      (''extensions'', ZRecord ZAny),
      (''enabled'', ZBoolean),
      (''insertion_order'', ZNumber),
      (''case_sensitive'', ZOptional ZBoolean),
      (''name'', ZOptional ZString),
      (''priority'', ZOptional ZNumber),
      (''id'', ZOptional ZNumber),
      (''comment'', ZOptional ZString),
      (''selective'', ZOptional ZBoolean),
      (''secondary_keys'', ZOptional (ZArray ZString)),
      (''constant'', ZOptional ZBoolean),
      (''position'', ZOptional (ZUnion [ZLiteral ''before_char'', ZLiteral ''after_char'']))]"

definition book :: schema where
  "book = ZObject
     [(''name'', ZOptional ZString),
      (''description'', ZOptional ZString),
      (''scan_depth'', ZOptional ZNumber),
      (''token_budget'', ZOptional ZNumber),
      (''recursive_scanning'', ZOptional ZBoolean),
      (''extensions'', ZRecord ZAny),
      (''entries'', ZArray entry)]"

definition v2 :: schema where
  "v2 = ZObject
     [(''spec'', ZLiteral ''chara_card_v2''),
      (''spec_version'', ZString),
      (''data'', merge v1
         (ZObject
            [(''creator_notes'', ZString),
             (''system_prompt'', ZString),
             (''post_history_instructions'', ZString),
             (''alternate_greetings'', ZArray ZString),
             (''character_book'', ZOptional book),
             (''tags'', ZArray ZString),
             (''creator'', ZString),
             (''character_version'', ZString),
             (''extensions'', ZRecord ZAny)]))]"

definition backfilledV2 :: schema where
  "backfilledV2 = merge v1 v2"

section \<open>The helper functions of the program\<close>

text \<open>
  Reading a property, \<open>x.k\<close>: a \<open>TypeError\<close> on \<open>undefined\<close> and \<open>null\<close>. The
  program reads only the properties \<open>data\<close>, \<open>name\<close>, \<open>description\<close>, \<open>personality\<close>,
  \<open>scenario\<close>, \<open>first_mes\<close> and \<open>mes_example\<close>, which no string, number, boolean or
  array has: there the result is \<open>undefined\<close>.
\<close>

fun getProp :: "jsval \<Rightarrow> string \<Rightarrow> error + jsval" where
  "getProp JUndefined k = Inl TypeError"
| "getProp JNull k = Inl TypeError"
| "getProp (JObj kvs) k = Inr (get kvs k)"
| "getProp _ k = Inr JUndefined"

definition bind :: "error + 'a \<Rightarrow> ('a \<Rightarrow> error + 'b) \<Rightarrow> error + 'b" where
  "bind m f = (case m of Inl e \<Rightarrow> Inl e | Inr x \<Rightarrow> f x)"

definition v1ToV2 :: "jsval \<Rightarrow> jsval" where
  "v1ToV2 v1Card =
     JObj
       [(''spec'', JStr ''chara_card_v2''),
        (''spec_version'', JStr ''2.0''),
        (''data'', JObj (assign_all (spread v1Card)
           [(''creator_notes'', JStr ''''),
            (''system_prompt'', JStr ''''),
            (''post_history_instructions'', JStr ''''),
            (''alternate_greetings'', JArr []),
            (''character_book'', JUndefined),
            (''tags'', JArr []),
            (''creator'', JStr ''''),
            (''character_version'', JStr ''''),
            (''extensions'', JObj [])]))]"

definition parseToV2 :: "jsval \<Rightarrow> error + jsval" where
  "parseToV2 data =
     (case safeParse v2 data of
        SafeParseSuccess d \<Rightarrow> Inr d
      | SafeParseError v2Error \<Rightarrow>
          (case safeParse v1 data of
             SafeParseSuccess d \<Rightarrow> Inr (v1ToV2 d)
           | SafeParseError v1Error \<Rightarrow> Inl v2Error))"

definition safeParseToV2 :: "jsval \<Rightarrow> SafeParseReturnType" where
  "safeParseToV2 data =
     (case safeParse v2 data of
        SafeParseSuccess d \<Rightarrow> SafeParseSuccess d
      | SafeParseError v2Error \<Rightarrow>
          (case safeParse v1 data of
             SafeParseSuccess d \<Rightarrow> safeParse v2 (v1ToV2 d)
           | SafeParseError v1Error \<Rightarrow> SafeParseError v2Error))"

definition backfillV2 :: "jsval \<Rightarrow> error + jsval" where
  "backfillV2 v2Card =
     bind (bind (getProp v2Card ''data'') (\<lambda>d. getProp d ''name'')) (\<lambda>name.
     bind (bind (getProp v2Card ''data'') (\<lambda>d. getProp d ''description'')) (\<lambda>description.
     bind (bind (getProp v2Card ''data'') (\<lambda>d. getProp d ''personality'')) (\<lambda>personality.
     bind (bind (getProp v2Card ''data'') (\<lambda>d. getProp d ''scenario'')) (\<lambda>scenario.
     bind (bind (getProp v2Card ''data'') (\<lambda>d. getProp d ''first_mes'')) (\<lambda>first_mes.
     bind (bind (getProp v2Card ''data'') (\<lambda>d. getProp d ''mes_example'')) (\<lambda>mes_example.
     Inr (JObj (assign_all (spread v2Card)
       [(''name'', name),
        (''description'', description),
        (''personality'', personality),
        (''scenario'', scenario),
        (''first_mes'', first_mes),
        (''mes_example'', mes_example)]))))))))"

definition obsolescenceNotice :: string where
  "obsolescenceNotice = ''This is a V2 Character Card. Please update your frontend.''"

definition backfillV2WithObsolescenceNotice :: "jsval \<Rightarrow> jsval" where
  "backfillV2WithObsolescenceNotice v2Card =
     JObj (assign_all (spread v2Card)
       [(''name'', JStr obsolescenceNotice),
        (''description'', JStr obsolescenceNotice),
        (''personality'', JStr obsolescenceNotice),
        (''scenario'', JStr obsolescenceNotice),
        (''first_mes'', JStr obsolescenceNotice),
        (''mes_example'', JStr obsolescenceNotice)])"

section \<open>Notions the properties are stated with\<close>

text \<open>A validator accepts a value when its non-throwing \<open>safeParse\<close> reports success.\<close>

definition accepts :: "schema \<Rightarrow> jsval \<Rightarrow> bool" where
  "accepts s d = (case safeParse s d of SafeParseSuccess v \<Rightarrow> True | SafeParseError e \<Rightarrow> False)"

text \<open>The six field names of a V1 card.\<close>

definition v1_fields :: "string list" where
  "v1_fields =
     [''name'', ''description'', ''personality'', ''scenario'', ''first_mes'', ''mes_example'']"

text \<open>
  A value has no extra fields for a schema when every object in it that an object
  schema describes has only keys of that schema's shape. Records (\<open>extensions\<close>) and
  \<open>any\<close> put no limit on keys.
\<close>

lemma size_shape_member_less [termination_simp]:
  "(k, s) \<in> set shape \<Longrightarrow> size s < Suc (size_list (size_prod (\<lambda>_. 0) size) shape)"
  using size_shape_member [of k s shape] by simp

lemma size_options_member_less [termination_simp]:
  "s \<in> set options \<Longrightarrow> size s < Suc (size_list size options)"
  using size_options_member [of s options] by simp

fun no_extra_fields :: "schema \<Rightarrow> jsval \<Rightarrow> bool" where
  "no_extra_fields (ZOptional s) d = (d = JUndefined \<or> no_extra_fields s d)"
| "no_extra_fields (ZArray s) d = (\<forall>x \<in> set (elems_of d). no_extra_fields s x)"
| "no_extra_fields (ZRecord s) d =
     (\<forall>k \<in> set (own_keys (props_of d)). no_extra_fields s (get (props_of d) k))"
| "no_extra_fields (ZUnion options) d = (\<forall>s \<in> set options. no_extra_fields s d)"
| "no_extra_fields (ZObject shape) d =
     ((\<forall>k \<in> set (map fst (props_of d)). has_key shape k) \<and>
      (\<forall>(k, s) \<in> set shape. no_extra_fields s (get (props_of d) k)))"
| "no_extra_fields s d = True"

text \<open>
  A record (an \<open>extensions\<close> map) of the value has no property named \<open>__proto__\<close>,
  the one key a record schema does not return.
\<close>

fun no_proto_key :: "schema \<Rightarrow> jsval \<Rightarrow> bool" where
  "no_proto_key (ZOptional s) d = (d = JUndefined \<or> no_proto_key s d)"
| "no_proto_key (ZArray s) d = (\<forall>x \<in> set (elems_of d). no_proto_key s x)"
| "no_proto_key (ZRecord s) d =
     (''__proto__'' \<notin> set (own_keys (props_of d)) \<and>
      (\<forall>k \<in> set (own_keys (props_of d)). no_proto_key s (get (props_of d) k)))"
| "no_proto_key (ZUnion options) d = (\<forall>s \<in> set options. no_proto_key s d)"
| "no_proto_key (ZObject shape) d =
     (\<forall>(k, s) \<in> set shape. no_proto_key s (get (props_of d) k))"
| "no_proto_key s d = True"

text \<open>
  A shape is a JavaScript object written as a literal with plain keys: it has every key
  once, and none is \<open>__proto__\<close>.
\<close>

fun plain_keys :: "schema \<Rightarrow> bool" where
  "plain_keys (ZOptional s) = plain_keys s"
| "plain_keys (ZArray s) = plain_keys s"
| "plain_keys (ZRecord s) = plain_keys s"
| "plain_keys (ZUnion options) = (\<forall>s \<in> set options. plain_keys s)"
| "plain_keys (ZObject shape) =
     (distinct (map fst shape) \<and> ''__proto__'' \<notin> set (map fst shape) \<and>
      (\<forall>(k, s) \<in> set shape. plain_keys s))"
| "plain_keys s = True"

text \<open>Reading a field of a document: \<open>undefined\<close> when the field is missing.\<close>

definition field :: "jsval \<Rightarrow> string \<Rightarrow> jsval" where
  "field x k = get (props_of x) k"

text \<open>The fields a V2 card has in \<open>data\<close> beyond those of V1 that hold a string.\<close>

definition v2_string_fields :: "string list" where
  "v2_string_fields =
     [''creator_notes'', ''system_prompt'', ''post_history_instructions'', ''creator'',
      ''character_version'']"

subsection \<open>The cards of the test suite\<close>

definition v1Card :: jsval where
  "v1Card = JObj
     [(''name'', JStr ''John''),
      (''description'', JStr ''{{char}} is a man.''),
      (''personality'', JStr ''cruel''),
      (''scenario'', JStr ''{{char}} hates {{user}}''),
      (''first_mes'', JStr ''Hi!''),
      (''mes_example'', JStr '''')]"

definition v2CardData :: jsval where
  "v2CardData = JObj
     [(''name'', JStr ''Mary''),
      (''description'', JStr ''{{char}} is a woman.''),
      (''personality'', JStr ''generous''),
      (''scenario'', JStr ''{{char}} loves {{user}}''),
      (''first_mes'', JStr ''Hello!''),
      (''mes_example'', JStr ''''),
      (''creator_notes'', JStr ''My first card.''),
      (''system_prompt'', JStr ''''),
      (''post_history_instructions'', JStr ''Your message must start with the word \"Sweetie\".''),
      (''alternate_greetings'', JArr [JStr ''Heeeey!'']),
      (''character_book'', JUndefined),
      (''tags'', JArr [JStr ''female'', JStr ''oc'']),
      (''creator'', JStr ''darkpriest''),
      (''character_version'', JStr ''''),
      (''extensions'', JObj [])]"

definition v2Card :: jsval where
  "v2Card = JObj
     [(''spec'', JStr ''chara_card_v2''),
      (''spec_version'', JStr ''2.0''),
      (''data'', v2CardData)]"

definition v2CardWithBackfilledV1Fields :: jsval where
  "v2CardWithBackfilledV1Fields = JObj
     [(''name'', JStr ''Mary''),
      (''description'', JStr ''{{char}} is a woman.''),
      (''personality'', JStr ''generous''),
      (''scenario'', JStr ''{{char}} loves {{user}}''),
      (''first_mes'', JStr ''Hello!''),
      (''mes_example'', JStr ''''),
      (''spec'', JStr ''chara_card_v2''),
      (''spec_version'', JStr ''2.0''),
      (''data'', v2CardData)]"

text \<open>
  Variations of the cards of the test suite: \<open>v2Card\<close> with a field the schema does not
  know, and the test's \<open>{ ...card, spec: 'x' }\<close> for the plain and the backfilled card.
\<close>

definition v2CardWithNickname :: jsval where
  "v2CardWithNickname = JObj
     [(''spec'', JStr ''chara_card_v2''),
      (''spec_version'', JStr ''2.0''),
      (''data'', v2CardData),
      (''nickname'', JStr ''Mimi'')]"

definition v2CardSpecX :: jsval where
  "v2CardSpecX = JObj (assign_all (spread v2Card) [(''spec'', JStr ''x'')])"

definition backfilledCardSpecX :: jsval where
  "backfilledCardSpecX =
     JObj (assign_all (spread v2CardWithBackfilledV1Fields) [(''spec'', JStr ''x'')])"

definition maryV1Card :: jsval where
  "maryV1Card = JObj
     [(''name'', JStr ''Mary''),
      (''description'', JStr ''{{char}} is a woman.''),
      (''personality'', JStr ''generous''),
      (''scenario'', JStr ''{{char}} loves {{user}}''),
      (''first_mes'', JStr ''Hello!''),
      (''mes_example'', JStr '''')]"

text \<open>
  What \<open>backfillV2 v2Card\<close> returns: the spread puts the fields of the card first. It
  is structurally equal to the test's \<open>v2CardWithBackfilledV1Fields\<close>.
\<close>

definition v2CardBackfilled :: jsval where
  "v2CardBackfilled = JObj
     [(''spec'', JStr ''chara_card_v2''),
      (''spec_version'', JStr ''2.0''),
      (''data'', v2CardData),
      (''name'', JStr ''Mary''),
      (''description'', JStr ''{{char}} is a woman.''),
      (''personality'', JStr ''generous''),
      (''scenario'', JStr ''{{char}} loves {{user}}''),
      (''first_mes'', JStr ''Hello!''),
      (''mes_example'', JStr '''')]"

text \<open>
  The test card with other \<open>extensions\<close>, as a function of them, and the card whose
  \<open>extensions\<close> have a property \<open>__proto__\<close>, as \<open>JSON.parse\<close> makes it from
  \<open>{"a": 1, "__proto__": 1}\<close>; the same card with the six fields that \<open>backfillV2\<close>
  adds.
\<close>

definition cardWithExtensions :: "jsval \<Rightarrow> jsval" where
  "cardWithExtensions e = JObj
     [(''spec'', JStr ''chara_card_v2''),
      (''spec_version'', JStr ''2.0''),
      (''data'', JObj
         [(''name'', JStr ''Mary''),
          (''description'', JStr ''{{char}} is a woman.''),
          (''personality'', JStr ''generous''),
          (''scenario'', JStr ''{{char}} loves {{user}}''),
          (''first_mes'', JStr ''Hello!''),
          (''mes_example'', JStr ''''),
          (''creator_notes'', JStr ''My first card.''),
          (''system_prompt'', JStr ''''),
          (''post_history_instructions'', JStr ''''),
          (''alternate_greetings'', JArr [JStr ''Heeeey!'']),
          (''tags'', JArr [JStr ''female'', JStr ''oc'']),
          (''creator'', JStr ''darkpriest''),
          (''character_version'', JStr ''''),
          (''extensions'', e)])]"

definition v2CardProto :: jsval where
  "v2CardProto = cardWithExtensions (JObj [(''a'', JNum 1), (''__proto__'', JNum 1)])"

definition v2CardProtoBackfilled :: jsval where
  "v2CardProtoBackfilled = JObj
     (props_of v2CardProto @
      [(''name'', JStr ''Mary''),
       (''description'', JStr ''{{char}} is a woman.''),
       (''personality'', JStr ''generous''),
       (''scenario'', JStr ''{{char}} loves {{user}}''),
       (''first_mes'', JStr ''Hello!''),
       (''mes_example'', JStr '''')])"

section \<open>Properties of objects and of structural equality\<close>

lemma get_Nil [simp]: "get [] k = JUndefined"
  by (simp add: get_def)

lemma get_Cons [simp]: "get ((k', v) # kvs) k = (if k' = k then v else get kvs k)"
  by (simp add: get_def)

lemma has_key_Nil [simp]: "has_key [] k = False"
  by (simp add: has_key_def)

lemma has_key_Cons [simp]: "has_key ((k', v) # kvs) k = (k' = k \<or> has_key kvs k)"
  by (auto simp: has_key_def)

lemma get_put: "get (put k v kvs) k' = (if k' = k then v else get kvs k')"
  by (induction kvs) auto

lemma has_key_put: "has_key (put k v kvs) k' = (k' = k \<or> has_key kvs k')"
  by (induction kvs) auto

lemma get_in_values: "get kvs k \<noteq> JUndefined \<Longrightarrow> (k, get kvs k) \<in> set kvs"
  by (induction kvs) (auto split: if_splits)

lemma struct_eq_refl: "struct_eq x x"
proof (induction x)
  case (JArr xs)
  then show ?case by simp
next
  case (JObj kvs)
  have "struct_eq (get kvs k) (get kvs k)" for k
  proof (cases "get kvs k = JUndefined")
    case True
    then show ?thesis by simp
  next
    case False
    then have "(k, get kvs k) \<in> set kvs"
      by (rule get_in_values)
    then show ?thesis
      using JObj.IH [of "(k, get kvs k)" "get kvs k"] by simp
  qed
  then show ?case by simp
qed simp_all

lemma getParsedType_TString: "getParsedType d = TString \<longleftrightarrow> (\<exists>s. d = JStr s)"
  by (cases d) simp_all

lemma getParsedType_TObject: "getParsedType d = TObject \<longleftrightarrow> (\<exists>kvs. d = JObj kvs)"
  by (cases d) simp_all

lemma getParsedType_TArray: "getParsedType d = TArray \<longleftrightarrow> (\<exists>xs. d = JArr xs)"
  by (cases d) simp_all

lemma getParsedType_TUndefined: "getParsedType d = TUndefined \<longleftrightarrow> d = JUndefined"
  by (cases d) simp_all

section \<open>Properties of the validation library\<close>

lemma isl_mergeObjectSync: "isl (mergeObjectSync pairs) = list_ex (\<lambda>(k, r, a). isl r) pairs"
  by (simp add: mergeObjectSync_def)

lemma isl_mergeArray: "isl (mergeArray rs) = list_ex isl rs"
  by (simp add: mergeArray_def)

lemma value_of_Inr [simp]: "value_of (Inr v) = v"
  by (simp add: value_of_def)

lemma issues_of_Inl [simp]: "issues_of (Inl is) = is"
  by (simp add: issues_of_def)

lemma issues_of_Inr [simp]: "issues_of (Inr v) = []"
  by (simp add: issues_of_def)

text \<open>What an object schema computes, with the pairs of \<open>mergeObjectSync\<close> spelled out.\<close>

lemma parse_ZObject:
  "parse (ZObject shape) p (JObj kvs) =
     (if \<exists>(k, s) \<in> set shape. isl (parse s (p @ [PKey k]) (get kvs k))
      then Inl (concat (map (\<lambda>(k, s). issues_of (parse s (p @ [PKey k]) (get kvs k))) shape))
      else Inr (JObj (map (\<lambda>(k, s). (k, value_of (parse s (p @ [PKey k]) (get kvs k))))
                       (filter (\<lambda>(k, s). k \<noteq> ''__proto__'' \<and>
                                  (value_of (parse s (p @ [PKey k]) (get kvs k)) \<noteq> JUndefined
                                   \<or> has_key kvs k)) shape))))"
  by (auto simp: mergeObjectSync_def list_ex_iff filter_map comp_def case_prod_unfold
           intro!: arg_cong [where f = concat])

lemma parse_ZRecord:
  "parse (ZRecord s) p (JObj kvs) =
     (if \<exists>k \<in> set (own_keys kvs). isl (parse s (p @ [PKey k]) (get kvs k))
      then Inl (concat (map (\<lambda>k. issues_of (parse s (p @ [PKey k]) (get kvs k))) (own_keys kvs)))
      else Inr (JObj (map (\<lambda>k. (k, value_of (parse s (p @ [PKey k]) (get kvs k))))
                       (filter (\<lambda>k. k \<noteq> ''__proto__'' \<and>
                                  value_of (parse s (p @ [PKey k]) (get kvs k)) \<noteq> JUndefined)
                          (own_keys kvs)))))"
  by (auto simp: mergeObjectSync_def list_ex_iff filter_map comp_def case_prod_unfold
           intro!: arg_cong [where f = concat])

text \<open>Only the properties named by the shape matter to an object schema.\<close>

lemma parse_ZObject_cong:
  assumes "\<And>k. has_key shape k \<Longrightarrow> get kvs k = get kvs' k \<and> has_key kvs k = has_key kvs' k"
  shows "parse (ZObject shape) p (JObj kvs) = parse (ZObject shape) p (JObj kvs')"
proof -
  have "(k, s) \<in> set shape \<Longrightarrow> get kvs k = get kvs' k \<and> has_key kvs k = has_key kvs' k" for k s
    using assms [of k] by (force simp: has_key_def)
  then have eq: "map (\<lambda>(k, s). (k, parse s (p @ [PKey k]) (get kvs k), has_key kvs k)) shape
           = map (\<lambda>(k, s). (k, parse s (p @ [PKey k]) (get kvs' k), has_key kvs' k)) shape"
    by (intro map_cong) auto
  show ?thesis
    by (simp only: parse.simps props_of.simps getParsedType.simps eq)
qed

text \<open>Reading the output of an object or record schema.\<close>

lemma get_map_filter:
  assumes "distinct (map fst xs)"
  shows "get (map (\<lambda>(k, s). (k, g k s)) (filter (\<lambda>(k, s). Q k s) xs)) k =
           (case map_of xs k of None \<Rightarrow> JUndefined
            | Some s \<Rightarrow> if Q k s then g k s else JUndefined)"
  using assms
proof (induction xs)
  case Nil
  then show ?case by simp
next
  case (Cons x xs)
  obtain k' s' where x: "x = (k', s')" by (cases x)
  from Cons.prems have "map_of xs k' = None"
    by (simp add: x map_of_eq_None_iff)
  with Cons show ?case by (auto simp: x)
qed

lemma has_key_map_filter:
  "has_key (map (\<lambda>(k, s). (k, g k s)) (filter (\<lambda>(k, s). Q k s) xs)) k \<Longrightarrow> has_key xs k"
  by (force simp: has_key_def)

lemma get_map_filter_keys:
  "get (map (\<lambda>k. (k, g k)) (filter Q ks)) k = (if k \<in> set ks \<and> Q k then g k else JUndefined)"
  by (induction ks) auto

text \<open>
  A schema returns its input up to structural equality when the input has no extra
  fields and no record with a property \<open>__proto__\<close>: stripping unknown keys and that
  property is all a schema of this program could change, and a record's dropping of
  \<open>undefined\<close> properties is invisible.
\<close>

lemma parse_no_extra_fields:
  "plain_keys s \<Longrightarrow> no_extra_fields s d \<Longrightarrow> no_proto_key s d \<Longrightarrow> parse s p d = Inr out
     \<Longrightarrow> struct_eq out d"
proof (induction s arbitrary: p d out)
  case ZString
  then show ?case by (auto simp: struct_eq_refl split: if_splits)
next
  case ZNumber
  then show ?case by (auto simp: struct_eq_refl split: if_splits)
next
  case ZBoolean
  then show ?case by (auto simp: struct_eq_refl split: if_splits)
next
  case ZAny
  then show ?case by (auto simp: struct_eq_refl)
next
  case (ZLiteral v)
  then show ?case by (auto split: if_splits)
next
  case (ZOptional s)
  show ?case
  proof (cases "d = JUndefined")
    case True
    with ZOptional.prems show ?thesis by simp
  next
    case False
    then have "getParsedType d \<noteq> TUndefined"
      by (simp add: getParsedType_TUndefined)
    with ZOptional.prems False show ?thesis
      using ZOptional.IH [of d p out] by simp
  qed
next
  case (ZArray s)
  from ZArray.prems(4) obtain xs where d: "d = JArr xs"
    by (auto simp: getParsedType_TArray split: if_splits)
  let ?rs = "map (\<lambda>(i, x). parse s (p @ [PIdx i]) x) (enumerate 0 xs)"
  from ZArray.prems(4) have ok: "\<not> list_ex isl ?rs" and out: "out = JArr (map value_of ?rs)"
    by (auto simp: d mergeArray_def split: if_splits)
  have "struct_eq (map value_of ?rs ! i) (xs ! i)" if i: "i < length xs" for i
  proof -
    let ?r = "parse s (p @ [PIdx i]) (xs ! i)"
    from i have r: "?rs ! i = ?r"
      by (simp add: nth_enumerate_eq)
    from i have "?rs ! i \<in> set ?rs"
      by (intro nth_mem) simp
    with ok have "\<not> isl ?r"
      by (auto simp: r list_ex_iff)
    then obtain v where v: "?r = Inr v"
      by (cases ?r) auto
    from i ZArray.prems(2,3) have "no_extra_fields s (xs ! i)" "no_proto_key s (xs ! i)"
      by (simp_all add: d)
    with ZArray.prems(1) v have "struct_eq v (xs ! i)"
      using ZArray.IH [of "xs ! i" "p @ [PIdx i]" v] by simp
    with i r v show ?thesis by simp
  qed
  then show ?case by (simp add: out d)
next
  case (ZRecord s)
  from ZRecord.prems(4) obtain kvs where d: "d = JObj kvs"
    by (auto simp: getParsedType_TObject split: if_splits)
  let ?r = "\<lambda>k. parse s (p @ [PKey k]) (get kvs k)"
  let ?out = "map (\<lambda>k. (k, value_of (?r k)))
                (filter (\<lambda>k. k \<noteq> ''__proto__'' \<and> value_of (?r k) \<noteq> JUndefined) (own_keys kvs))"
  from ZRecord.prems(4) have ok: "\<forall>k \<in> set (own_keys kvs). \<not> isl (?r k)" and out: "out = JObj ?out"
    unfolding d parse_ZRecord by (auto split: if_splits)
  have "struct_eq (get ?out k) (get kvs k)" if k: "k \<in> set (map fst ?out @ map fst kvs)" for k
  proof -
    from k have mem: "k \<in> set (own_keys kvs)"
      by (auto simp: own_keys_def)
    with ok obtain v where v: "?r k = Inr v"
      by (cases "?r k") auto
    from mem ZRecord.prems(2,3) have "no_extra_fields s (get kvs k)" "no_proto_key s (get kvs k)"
      by (simp_all add: d)
    with ZRecord.prems(1) v have eq: "struct_eq v (get kvs k)"
      using ZRecord.IH [of "get kvs k" "p @ [PKey k]" v] by simp
    from mem ZRecord.prems(3) have "k \<noteq> ''__proto__''"
      by (auto simp: d)
    then have "get ?out k = v"
      by (simp add: get_map_filter_keys mem v)
    with eq show ?thesis by simp
  qed
  then show ?case by (simp add: out d)
next
  case (ZUnion options)
  let ?rs = "map (\<lambda>s. parse s p d) options"
  from ZUnion.prems(4) have "find (\<lambda>r. \<not> isl r) ?rs = Some (Inr out)"
    by (auto split: option.splits)
  then have "Inr out \<in> set ?rs"
    by (auto simp: find_Some_iff)
  then obtain s where s: "s \<in> set options" "parse s p d = Inr out"
    by auto
  with ZUnion.prems(1,2,3) show ?case
    using ZUnion.IH [of s d p out] by simp
next
  case (ZObject shape)
  from ZObject.prems(4) obtain kvs where d: "d = JObj kvs"
    by (auto simp: getParsedType_TObject split: if_splits)
  let ?r = "\<lambda>k s. parse s (p @ [PKey k]) (get kvs k)"
  let ?out = "map (\<lambda>(k, s). (k, value_of (?r k s)))
                (filter (\<lambda>(k, s). k \<noteq> ''__proto__'' \<and>
                           (value_of (?r k s) \<noteq> JUndefined \<or> has_key kvs k)) shape)"
  from ZObject.prems(4) have ok: "\<forall>(k, s) \<in> set shape. \<not> isl (?r k s)" and out: "out = JObj ?out"
    unfolding d parse_ZObject by (auto split: if_splits)
  from ZObject.prems(1) have dist: "distinct (map fst shape)"
    by simp
  have "struct_eq (get ?out k) (get kvs k)" if k: "k \<in> set (map fst ?out @ map fst kvs)" for k
  proof -
    from k ZObject.prems(2) have "has_key shape k"
      by (force simp: d has_key_def)
    then obtain s where mem: "(k, s) \<in> set shape"
      by (auto simp: has_key_def)
    with dist have look: "map_of shape k = Some s"
      by simp
    from mem ok obtain v where v: "?r k s = Inr v"
      by (cases "?r k s") auto
    from mem ZObject.prems(1,2,3) have "plain_keys s" "no_extra_fields s (get kvs k)"
      "no_proto_key s (get kvs k)"
      by (auto simp: d)
    with mem v have eq: "struct_eq v (get kvs k)"
      using ZObject.IH [of "(k, s)" s "get kvs k" "p @ [PKey k]" v] by simp
    from mem ZObject.prems(1) have "k \<noteq> ''__proto__''"
      by (auto simp: rev_image_eqI)
    then have "get ?out k = v"
      using get_map_filter [OF dist, of "\<lambda>k s. value_of (?r k s)"
          "\<lambda>k s. k \<noteq> ''__proto__'' \<and> (value_of (?r k s) \<noteq> JUndefined \<or> has_key kvs k)" k]
      by (auto simp: look v)
    with eq show ?thesis by simp
  qed
  then show ?case by (simp add: out d)
qed

text \<open>
  A failed parse always has an issue to report, so \<open>safeParse\<close> never meets the
  library's "Validation failed but no issues detected".
\<close>

lemma concat_issues_nonempty:
  assumes "r \<in> set rs" and "issues_of r \<noteq> []"
  shows "concat (map issues_of rs) \<noteq> []"
  using assms by (induction rs) auto

lemma parse_issues_nonempty: "parse s p d = Inl is \<Longrightarrow> is \<noteq> []"
proof (induction s arbitrary: p d "is")
  case (ZOptional s)
  then show ?case by (auto split: if_splits)
next
  case (ZArray s)
  show ?case
  proof (cases "getParsedType d = TArray")
    case False
    with ZArray.prems show ?thesis by auto
  next
    case True
    let ?rs = "map (\<lambda>(i, x). parse s (p @ [PIdx i]) x) (enumerate 0 (elems_of d))"
    from True ZArray.prems have bad: "list_ex isl ?rs" and "is": "is = concat (map issues_of ?rs)"
      by (auto simp: mergeArray_def split: if_splits)
    from bad obtain r where r: "r \<in> set ?rs" "isl r"
      by (auto simp: list_ex_iff)
    from r(1) obtain i x where rx: "r = parse s (p @ [PIdx i]) x"
      by auto
    from r(2) obtain is' where ri: "r = Inl is'"
      by (cases r) auto
    from rx ri have "parse s (p @ [PIdx i]) x = Inl is'"
      by simp
    from ZArray.IH [OF this] have "issues_of r \<noteq> []"
      by (simp add: ri)
    with r(1) show ?thesis
      unfolding "is" by (rule concat_issues_nonempty)
  qed
next
  case (ZRecord s)
  show ?case
  proof (cases "getParsedType d = TObject")
    case False
    with ZRecord.prems show ?thesis by auto
  next
    case True
    then obtain kvs where d: "d = JObj kvs"
      by (auto simp: getParsedType_TObject)
    let ?r = "\<lambda>k. parse s (p @ [PKey k]) (get kvs k)"
    from ZRecord.prems obtain k where k: "k \<in> set (own_keys kvs)" "isl (?r k)"
      and "is": "is = concat (map issues_of (map ?r (own_keys kvs)))"
      unfolding d parse_ZRecord by (auto simp: comp_def split: if_splits)
    from k(2) obtain is' where "?r k = Inl is'"
      by (cases "?r k") auto
    with ZRecord.IH [of "p @ [PKey k]" "get kvs k" is'] have "issues_of (?r k) \<noteq> []"
      by simp
    moreover from k(1) have "?r k \<in> set (map ?r (own_keys kvs))"
      by simp
    ultimately show ?thesis
      unfolding "is" by (rule concat_issues_nonempty [rotated])
  qed
next
  case (ZUnion options)
  show ?case
  proof (cases "find (\<lambda>r. \<not> isl r) (map (\<lambda>s. parse s p d) options)")
    case None
    with ZUnion.prems show ?thesis by auto
  next
    case (Some r)
    then have "\<not> isl r"
      by (auto simp: find_Some_iff)
    moreover from Some ZUnion.prems have "r = Inl is"
      by simp
    ultimately show ?thesis by simp
  qed
next
  case (ZObject shape)
  show ?case
  proof (cases "getParsedType d = TObject")
    case False
    with ZObject.prems show ?thesis by auto
  next
    case True
    then obtain kvs where d: "d = JObj kvs"
      by (auto simp: getParsedType_TObject)
    let ?r = "\<lambda>(k, s). parse s (p @ [PKey k]) (get kvs k)"
    from ZObject.prems obtain k s where ks: "(k, s) \<in> set shape" "isl (?r (k, s))"
      and "is": "is = concat (map issues_of (map ?r shape))"
      unfolding d parse_ZObject by (auto simp: comp_def case_prod_unfold split: if_splits)
    from ks(2) obtain is' where "parse s (p @ [PKey k]) (get kvs k) = Inl is'"
      by (cases "parse s (p @ [PKey k]) (get kvs k)") auto
    with ks(1) ZObject.IH [of "(k, s)" s "p @ [PKey k]" "get kvs k" is']
    have "issues_of (?r (k, s)) \<noteq> []"
      by simp
    moreover from ks(1) have "?r (k, s) \<in> set (map ?r shape)"
      unfolding set_map by (rule imageI)
    ultimately show ?thesis
      unfolding "is" by (rule concat_issues_nonempty [rotated])
  qed
qed (auto split: if_splits)

section \<open>Properties of the validators of the program\<close>

text \<open>The validators \<open>v2\<close> and \<open>backfilledV2\<close> after \<open>merge\<close> has been computed.\<close>

lemma v2_backfilledV2_shape:
  "\<exists>sh. v2 = ZObject
            [(''spec'', ZLiteral ''chara_card_v2''),
             (''spec_version'', ZString),
             (''data'', ZObject sh)]
      \<and> backfilledV2 = ZObject
            [(''name'', ZString),
             (''description'', ZString),
             (''personality'', ZString),
             (''scenario'', ZString),
             (''first_mes'', ZString),
             (''mes_example'', ZString),
             (''spec'', ZLiteral ''chara_card_v2''),
             (''spec_version'', ZString),
             (''data'', ZObject sh)]"
  by (simp add: backfilledV2_def v2_def v1_def assign_all_def)

lemma plain_keys_v2: "plain_keys v2"
  by (simp add: v2_def v1_def book_def entry_def assign_all_def)

lemma parse_ZObject_Inr:
  assumes "parse (ZObject sh) p x = Inr out"
  shows "(\<exists>kvs. x = JObj kvs) \<and> (\<exists>okvs. out = JObj okvs)"
proof -
  from assms obtain kvs where x: "x = JObj kvs"
    by (auto simp: getParsedType_TObject split: if_splits)
  from assms show ?thesis
    unfolding x parse_ZObject by (auto split: if_splits)
qed

lemma isl_parse_ZObject:
  "isl (parse (ZObject shape) p (JObj kvs)) \<longleftrightarrow>
     (\<exists>(k, s) \<in> set shape. isl (parse s (p @ [PKey k]) (get kvs k)))"
  unfolding parse_ZObject by simp

lemma isl_parse_ZString: "isl (parse ZString p x) \<longleftrightarrow> (\<forall>s. x \<noteq> JStr s)"
  by (auto simp: getParsedType_TString)

lemma isl_parse_ZLiteral: "isl (parse (ZLiteral c) p x) \<longleftrightarrow> x \<noteq> JStr c"
  by simp

lemma parse_envelope_Inr:
  assumes "parse (ZObject [(''spec'', ZLiteral c), (''spec_version'', ZString), (''data'', ZObject sh)])
             p d = Inr out"
  shows "\<exists>kvs sv dkvs okvs.
           d = JObj kvs \<and> get kvs ''spec'' = JStr c \<and> get kvs ''spec_version'' = JStr sv \<and>
           get kvs ''data'' = JObj dkvs \<and>
           parse (ZObject sh) (p @ [PKey ''data'']) (JObj dkvs) = Inr (JObj okvs) \<and>
           out = JObj [(''spec'', JStr c), (''spec_version'', JStr sv), (''data'', JObj okvs)]"
proof -
  let ?S = "ZObject [(''spec'', ZLiteral c), (''spec_version'', ZString), (''data'', ZObject sh)]"
  let ?r1 = "parse (ZLiteral c) (p @ [PKey ''spec'']) "
  let ?r2 = "parse ZString (p @ [PKey ''spec_version''])"
  let ?r3 = "parse (ZObject sh) (p @ [PKey ''data''])"
  from parse_ZObject_Inr [OF assms] obtain kvs where d: "d = JObj kvs"
    by blast
  from assms have "\<not> isl (parse ?S p (JObj kvs))"
    by (simp only: d sum.disc simp_thms)
  then have n1: "\<not> isl (?r1 (get kvs ''spec''))"
    and n2: "\<not> isl (?r2 (get kvs ''spec_version''))"
    and n3: "\<not> isl (?r3 (get kvs ''data''))"
    by (simp_all only: isl_parse_ZObject list.set ball_simps bex_simps
        insert_iff empty_iff case_prod_conv de_Morgan_disj simp_thms)
  from n1 have spec: "get kvs ''spec'' = JStr c"
    by (simp only: isl_parse_ZLiteral not_not)
  from n2 obtain sv where sv: "get kvs ''spec_version'' = JStr sv"
    by (auto simp only: isl_parse_ZString)
  from n3 obtain dat where dat: "?r3 (get kvs ''data'') = Inr dat"
    by (cases "?r3 (get kvs ''data'')") (simp_all only: sum.disc simp_thms)
  from parse_ZObject_Inr [OF dat] obtain dkvs okvs
    where dk: "get kvs ''data'' = JObj dkvs" "dat = JObj okvs"
    by blast
  have e1: "?r1 (get kvs ''spec'') = Inr (JStr c)"
    by (simp add: spec)
  have e2: "?r2 (get kvs ''spec_version'') = Inr (JStr sv)"
    by (simp add: sv)
  have e3: "?r3 (get kvs ''data'') = Inr (JObj okvs)"
    using dat dk by (simp only:)
  have "parse ?S p (JObj kvs) =
          Inr (JObj [(''spec'', JStr c), (''spec_version'', JStr sv), (''data'', JObj okvs)])"
    unfolding parse_ZObject [of _ p kvs] by (simp add: e1 e2 e3 del: parse.simps)
  with assms have "out = JObj [(''spec'', JStr c), (''spec_version'', JStr sv), (''data'', JObj okvs)]"
    by (simp only: d sum.inject)
  with d spec sv dk e3 show ?thesis
    by (simp only:) blast
qed

lemma parse_envelope_Inl:
  assumes "get kvs ''spec'' \<noteq> JStr c"
  shows "isl (parse (ZObject [(''spec'', ZLiteral c), (''spec_version'', ZString), (''data'', ds)])
             p (JObj kvs))"
  using assms unfolding parse_ZObject by simp

lemma accepts_iff: "accepts s d \<longleftrightarrow> \<not> isl (parse s [] d)"
  by (simp add: accepts_def safeParse_def split: sum.splits)

lemma v2_shape:
  obtains sh where
    "v2 = ZObject [(''spec'', ZLiteral ''chara_card_v2''), (''spec_version'', ZString),
                   (''data'', ZObject sh)]"
    and "backfilledV2 = ZObject
            [(''name'', ZString),
             (''description'', ZString),
             (''personality'', ZString),
             (''scenario'', ZString),
             (''first_mes'', ZString),
             (''mes_example'', ZString),
             (''spec'', ZLiteral ''chara_card_v2''),
             (''spec_version'', ZString),
             (''data'', ZObject sh)]"
proof -
  from v2_backfilledV2_shape obtain sh where
    both: "v2 = ZObject [(''spec'', ZLiteral ''chara_card_v2''), (''spec_version'', ZString),
                   (''data'', ZObject sh)]
     \<and> backfilledV2 = ZObject
            [(''name'', ZString),
             (''description'', ZString),
             (''personality'', ZString),
             (''scenario'', ZString),
             (''first_mes'', ZString),
             (''mes_example'', ZString),
             (''spec'', ZLiteral ''chara_card_v2''),
             (''spec_version'', ZString),
             (''data'', ZObject sh)]" ..
  show thesis
    by (rule that [OF conjunct1 [OF both] conjunct2 [OF both]])
qed

lemma parse_v2_Inr:
  assumes "parse v2 p d = Inr out"
  shows "\<exists>kvs sv dkvs okvs.
           d = JObj kvs \<and> get kvs ''spec'' = JStr ''chara_card_v2'' \<and>
           get kvs ''spec_version'' = JStr sv \<and> get kvs ''data'' = JObj dkvs \<and>
           out = JObj [(''spec'', JStr ''chara_card_v2''), (''spec_version'', JStr sv),
                       (''data'', JObj okvs)]"
proof -
  obtain sh where v2: "v2 = ZObject [(''spec'', ZLiteral ''chara_card_v2''),
      (''spec_version'', ZString), (''data'', ZObject sh)]"
    by (rule v2_shape)
  from assms have "parse (ZObject [(''spec'', ZLiteral ''chara_card_v2''),
      (''spec_version'', ZString), (''data'', ZObject sh)]) p d = Inr out"
    by (simp only: v2)
  from parse_envelope_Inr [OF this] obtain kvs sv dkvs okvs where
    "d = JObj kvs" "get kvs ''spec'' = JStr ''chara_card_v2''"
    "get kvs ''spec_version'' = JStr sv" "get kvs ''data'' = JObj dkvs"
    "out = JObj [(''spec'', JStr ''chara_card_v2''), (''spec_version'', JStr sv),
                 (''data'', JObj okvs)]"
    by (elim exE conjE)
  then show ?thesis
    by (intro exI conjI)
qed

lemma accepts_Inr: "accepts s d \<Longrightarrow> \<exists>out. parse s [] d = Inr out"
  by (cases "parse s [] d") (simp_all add: accepts_iff)

lemma isl_parse_v2_spec:
  assumes "get kvs ''spec'' \<noteq> JStr ''chara_card_v2''"
  shows "isl (parse v2 p (JObj kvs))"
proof -
  obtain sh where v2: "v2 = ZObject [(''spec'', ZLiteral ''chara_card_v2''),
      (''spec_version'', ZString), (''data'', ZObject sh)]"
    by (rule v2_shape)
  show ?thesis
    unfolding v2 by (rule parse_envelope_Inl [OF assms])
qed

lemma parse_v1_Inr:
  assumes "parse v1 p d = Inr out"
  shows "\<exists>kvs n de pe sc fm me.
           d = JObj kvs \<and> get kvs ''name'' = JStr n \<and> get kvs ''description'' = JStr de \<and>
           get kvs ''personality'' = JStr pe \<and> get kvs ''scenario'' = JStr sc \<and>
           get kvs ''first_mes'' = JStr fm \<and> get kvs ''mes_example'' = JStr me \<and>
           out = JObj [(''name'', JStr n), (''description'', JStr de), (''personality'', JStr pe),
                       (''scenario'', JStr sc), (''first_mes'', JStr fm), (''mes_example'', JStr me)]"
proof -
  from parse_ZObject_Inr [OF assms [unfolded v1_def]] obtain kvs where d: "d = JObj kvs"
    by blast
  from assms have "\<not> isl (parse v1 p (JObj kvs))"
    by (simp only: d sum.disc simp_thms)
  then have
    "\<exists>n. get kvs ''name'' = JStr n" "\<exists>n. get kvs ''description'' = JStr n"
    "\<exists>n. get kvs ''personality'' = JStr n" "\<exists>n. get kvs ''scenario'' = JStr n"
    "\<exists>n. get kvs ''first_mes'' = JStr n" "\<exists>n. get kvs ''mes_example'' = JStr n"
    unfolding v1_def isl_parse_ZObject by (simp_all add: isl_parse_ZString del: parse.simps)
  then obtain n de pe sc fm me where g:
    "get kvs ''name'' = JStr n" "get kvs ''description'' = JStr de"
    "get kvs ''personality'' = JStr pe" "get kvs ''scenario'' = JStr sc"
    "get kvs ''first_mes'' = JStr fm" "get kvs ''mes_example'' = JStr me"
    by (elim exE)
  have "parse v1 p (JObj kvs) =
          Inr (JObj [(''name'', JStr n), (''description'', JStr de), (''personality'', JStr pe),
                     (''scenario'', JStr sc), (''first_mes'', JStr fm), (''mes_example'', JStr me)])"
    unfolding v1_def parse_ZObject by (simp add: g)
  with assms have "out = JObj [(''name'', JStr n), (''description'', JStr de),
      (''personality'', JStr pe), (''scenario'', JStr sc), (''first_mes'', JStr fm),
      (''mes_example'', JStr me)]"
    by (simp only: d sum.inject)
  with d g show ?thesis
    by (intro exI conjI)
qed

lemma v1ToV2_accepted:
  assumes "get kvs ''name'' = JStr n" "get kvs ''description'' = JStr de"
    "get kvs ''personality'' = JStr pe" "get kvs ''scenario'' = JStr sc"
    "get kvs ''first_mes'' = JStr fm" "get kvs ''mes_example'' = JStr me"
  shows "\<not> isl (parse v2 [] (v1ToV2 (JObj kvs)))"
  unfolding v2_def v1_def v1ToV2_def
  by (simp add: isl_parse_ZObject assign_all_def get_put assms isl_mergeArray
           isl_mergeObjectSync own_keys_def del: parse.simps(10))

lemma parse_v2_v1ToV2:
  "parse v2 []
     (v1ToV2 (JObj [(''name'', JStr n), (''description'', JStr de), (''personality'', JStr pe),
                    (''scenario'', JStr sc), (''first_mes'', JStr fm), (''mes_example'', JStr me)]))
   = Inr (v1ToV2 (JObj [(''name'', JStr n), (''description'', JStr de), (''personality'', JStr pe),
                    (''scenario'', JStr sc), (''first_mes'', JStr fm), (''mes_example'', JStr me)]))"
  unfolding v2_def v1_def v1ToV2_def
  by (simp add: assign_all_def mergeObjectSync_def mergeArray_def own_keys_def)

lemma accepts_v2_D:
  assumes "accepts v2 d"
  shows "\<exists>kvs sv dkvs. d = JObj kvs \<and> get kvs ''spec'' = JStr ''chara_card_v2'' \<and>
           get kvs ''spec_version'' = JStr sv \<and> get kvs ''data'' = JObj dkvs"
proof -
  from accepts_Inr [OF assms] obtain out where "parse v2 [] d = Inr out" ..
  from parse_v2_Inr [OF this] obtain kvs sv dkvs where
    "d = JObj kvs" "get kvs ''spec'' = JStr ''chara_card_v2''"
    "get kvs ''spec_version'' = JStr sv" "get kvs ''data'' = JObj dkvs"
    by (elim exE conjE)
  then show ?thesis
    by (intro exI conjI)
qed

section \<open>The upgrade from V1 to V2\<close>

lemma accepts_v1_D:
  assumes "accepts v1 d"
  shows "\<exists>kvs n de pe sc fm me.
           d = JObj kvs \<and> get kvs ''name'' = JStr n \<and> get kvs ''description'' = JStr de \<and>
           get kvs ''personality'' = JStr pe \<and> get kvs ''scenario'' = JStr sc \<and>
           get kvs ''first_mes'' = JStr fm \<and> get kvs ''mes_example'' = JStr me"
proof -
  from accepts_Inr [OF assms] obtain out where "parse v1 [] d = Inr out" ..
  from parse_v1_Inr [OF this] obtain kvs n de pe sc fm me where
    "d = JObj kvs" "get kvs ''name'' = JStr n" "get kvs ''description'' = JStr de"
    "get kvs ''personality'' = JStr pe" "get kvs ''scenario'' = JStr sc"
    "get kvs ''first_mes'' = JStr fm" "get kvs ''mes_example'' = JStr me"
    by (elim exE conjE)
  then show ?thesis
    by (intro exI conjI)
qed

text \<open>
  C3. For every valid V1 document \<open>d\<close> (one the \<open>v1\<close> validator accepts), \<open>v1ToV2 d\<close> is a
  V2 document (the \<open>v2\<close> validator accepts it) whose \<open>spec\<close> is \<open>chara_card_v2\<close>, whose
  \<open>spec_version\<close> is \<open>2.0\<close>, whose \<open>data\<close> holds the six V1 fields of \<open>d\<close> unchanged,
  the empty string in \<open>creator_notes\<close>, \<open>system_prompt\<close>, \<open>post_history_instructions\<close>,
  \<open>creator\<close> and \<open>character_version\<close>, an empty list in \<open>alternate_greetings\<close> and
  \<open>tags\<close>, an empty map in \<open>extensions\<close>, and no \<open>character_book\<close>.
\<close>

theorem v1ToV2_wraps_with_defaults:
  assumes "accepts v1 d"
  shows "accepts v2 (v1ToV2 d) \<and>
         field (v1ToV2 d) ''spec'' = JStr ''chara_card_v2'' \<and>
         field (v1ToV2 d) ''spec_version'' = JStr ''2.0'' \<and>
         (\<forall>k \<in> set v1_fields. field (field (v1ToV2 d) ''data'') k = field d k) \<and>
         (\<forall>k \<in> set v2_string_fields. field (field (v1ToV2 d) ''data'') k = JStr '''') \<and>
         field (field (v1ToV2 d) ''data'') ''alternate_greetings'' = JArr [] \<and>
         field (field (v1ToV2 d) ''data'') ''tags'' = JArr [] \<and>
         field (field (v1ToV2 d) ''data'') ''extensions'' = JObj [] \<and>
         field (field (v1ToV2 d) ''data'') ''character_book'' = JUndefined"
proof -
  from accepts_v1_D [OF assms] obtain kvs n de pe sc fm me where
    d: "d = JObj kvs" and g: "get kvs ''name'' = JStr n" "get kvs ''description'' = JStr de"
    "get kvs ''personality'' = JStr pe" "get kvs ''scenario'' = JStr sc"
    "get kvs ''first_mes'' = JStr fm" "get kvs ''mes_example'' = JStr me"
    by (elim exE conjE)
  have "accepts v2 (v1ToV2 d)"
    unfolding d accepts_iff by (rule v1ToV2_accepted [OF g])
  moreover have "field (v1ToV2 d) ''spec'' = JStr ''chara_card_v2''"
    and "field (v1ToV2 d) ''spec_version'' = JStr ''2.0''"
    by (simp_all add: field_def v1ToV2_def)
  moreover have "\<forall>k \<in> set v1_fields. field (field (v1ToV2 d) ''data'') k = field d k"
    by (simp add: field_def v1ToV2_def v1_fields_def d assign_all_def get_put)
  moreover have "\<forall>k \<in> set v2_string_fields. field (field (v1ToV2 d) ''data'') k = JStr ''''"
    by (simp add: field_def v1ToV2_def v2_string_fields_def assign_all_def get_put)
  moreover have "field (field (v1ToV2 d) ''data'') ''alternate_greetings'' = JArr []"
    and "field (field (v1ToV2 d) ''data'') ''tags'' = JArr []"
    and "field (field (v1ToV2 d) ''data'') ''extensions'' = JObj []"
    and "field (field (v1ToV2 d) ''data'') ''character_book'' = JUndefined"
    by (simp_all add: field_def v1ToV2_def assign_all_def get_put)
  ultimately show ?thesis
    by (intro conjI)
qed

theorem v1ToV2_wraps_with_defaults_witness:
  "accepts v1 v1Card \<and> accepts v2 (v1ToV2 v1Card) \<and>
   field (v1ToV2 v1Card) ''spec'' = JStr ''chara_card_v2'' \<and>
   field (field (v1ToV2 v1Card) ''data'') ''name'' = JStr ''John'' \<and>
   field (field (v1ToV2 v1Card) ''data'') ''first_mes'' = JStr ''Hi!'' \<and>
   field (field (v1ToV2 v1Card) ''data'') ''creator'' = JStr '''' \<and>
   field (field (v1ToV2 v1Card) ''data'') ''character_book'' = JUndefined"
proof -
  have h: "accepts v1 v1Card"
    by code_simp
  have f: "field v1Card ''name'' = JStr ''John''" "field v1Card ''first_mes'' = JStr ''Hi!''"
    by (simp_all add: field_def v1Card_def)
  from v1ToV2_wraps_with_defaults [OF h] h f show ?thesis
    by (simp add: v1_fields_def v2_string_fields_def)
qed

section \<open>The backfill functions\<close>

lemma get_six_put:
  "get (put ''mes_example'' f (put ''first_mes'' e (put ''scenario'' d'
     (put ''personality'' c (put ''description'' b (put ''name'' a kvs)))))) k =
   (if k = ''mes_example'' then f else if k = ''first_mes'' then e
    else if k = ''scenario'' then d' else if k = ''personality'' then c
    else if k = ''description'' then b else if k = ''name'' then a else get kvs k)"
  by (simp only: get_put)

lemma backfillV2_obj:
  "backfillV2 (JObj kvs) =
     (case get kvs ''data'' of
        JUndefined \<Rightarrow> Inl TypeError
      | JNull \<Rightarrow> Inl TypeError
      | dat \<Rightarrow>
          Inr (JObj (assign_all kvs
            [(''name'', field dat ''name''),
             (''description'', field dat ''description''),
             (''personality'', field dat ''personality''),
             (''scenario'', field dat ''scenario''),
             (''first_mes'', field dat ''first_mes''),
             (''mes_example'', field dat ''mes_example'')])))"
  by (cases "get kvs ''data''") (simp_all add: backfillV2_def bind_def field_def)

text \<open>
  C5. For every valid V2 document \<open>d\<close> (one the \<open>v2\<close> validator accepts), \<open>backfillV2 d\<close>
  returns a document whose top-level \<open>name\<close>, \<open>description\<close>, \<open>personality\<close>, \<open>scenario\<close>,
  \<open>first_mes\<close> and \<open>mes_example\<close> each equal the field of the same name of \<open>d.data\<close>,
  and whose \<open>data\<close> is the \<open>data\<close> of \<open>d\<close>, unchanged.
\<close>

theorem backfillV2_copies_data_fields:
  assumes "accepts v2 d"
  shows "\<exists>out. backfillV2 d = Inr out \<and>
           (\<forall>k \<in> set v1_fields. field out k = field (field d ''data'') k) \<and>
           field out ''data'' = field d ''data'' \<and>
           struct_eq (field out ''data'') (field d ''data'')"
proof -
  from accepts_v2_D [OF assms] obtain kvs dkvs where
    d: "d = JObj kvs" and dat: "get kvs ''data'' = JObj dkvs"
    by (elim exE conjE)
  let ?out = "JObj (assign_all kvs
            [(''name'', field (JObj dkvs) ''name''),
             (''description'', field (JObj dkvs) ''description''),
             (''personality'', field (JObj dkvs) ''personality''),
             (''scenario'', field (JObj dkvs) ''scenario''),
             (''first_mes'', field (JObj dkvs) ''first_mes''),
             (''mes_example'', field (JObj dkvs) ''mes_example'')])"
  have "backfillV2 d = Inr ?out"
    by (simp add: d backfillV2_obj dat)
  moreover have "\<forall>k \<in> set v1_fields. field ?out k = field (field d ''data'') k"
    by (simp add: v1_fields_def field_def d dat assign_all_def get_six_put)
  moreover have same: "field ?out ''data'' = field d ''data''"
    by (simp add: field_def d assign_all_def get_six_put)
  moreover have "struct_eq (field ?out ''data'') (field d ''data'')"
    by (simp only: same struct_eq_refl)
  ultimately show ?thesis
    by (intro exI [of _ ?out] conjI)
qed

theorem backfillV2_copies_data_fields_witness:
  "accepts v2 v2Card \<and>
   (\<exists>out. backfillV2 v2Card = Inr out \<and> field out ''name'' = JStr ''Mary'' \<and>
      field out ''personality'' = JStr ''generous'' \<and> field out ''data'' = v2CardData)"
proof -
  have h: "accepts v2 v2Card"
    by code_simp
  have f: "field v2Card ''data'' = v2CardData" "field v2CardData ''name'' = JStr ''Mary''"
    "field v2CardData ''personality'' = JStr ''generous''"
    by (simp_all add: field_def v2Card_def v2CardData_def)
  from backfillV2_copies_data_fields [OF h] obtain out where
    "backfillV2 v2Card = Inr out"
    "\<forall>k \<in> set v1_fields. field out k = field (field v2Card ''data'') k"
    "field out ''data'' = field v2Card ''data''"
    by (elim exE conjE)
  with f have "backfillV2 v2Card = Inr out \<and> field out ''name'' = JStr ''Mary'' \<and>
      field out ''personality'' = JStr ''generous'' \<and> field out ''data'' = v2CardData"
    by (simp add: v1_fields_def)
  with h show ?thesis
    by (intro conjI exI [of _ out]) simp_all
qed

text \<open>
  C6. For every valid V2 document \<open>d\<close>, \<open>backfillV2WithObsolescenceNotice d\<close> returns a
  document whose six top-level V1 fields all hold the notice "This is a V2 Character Card.
  Please update your frontend.", whatever \<open>d.data\<close> holds, and whose \<open>data\<close> is the
  \<open>data\<close> of \<open>d\<close>, unchanged.
\<close>

theorem backfillV2WithObsolescenceNotice_overwrites:
  assumes "accepts v2 d"
  shows "(\<forall>k \<in> set v1_fields.
            field (backfillV2WithObsolescenceNotice d) k =
              JStr ''This is a V2 Character Card. Please update your frontend.'') \<and>
         field (backfillV2WithObsolescenceNotice d) ''data'' = field d ''data'' \<and>
         struct_eq (field (backfillV2WithObsolescenceNotice d) ''data'') (field d ''data'')"
proof -
  from accepts_v2_D [OF assms] obtain kvs where d: "d = JObj kvs"
    by (elim exE conjE)
  have "\<forall>k \<in> set v1_fields.
            field (backfillV2WithObsolescenceNotice d) k =
              JStr ''This is a V2 Character Card. Please update your frontend.''"
    by (simp add: v1_fields_def field_def d backfillV2WithObsolescenceNotice_def
        assign_all_def get_six_put obsolescenceNotice_def)
  moreover have "field (backfillV2WithObsolescenceNotice d) ''data'' = field d ''data''"
    by (simp add: field_def d backfillV2WithObsolescenceNotice_def assign_all_def get_six_put)
  ultimately show ?thesis
    by (simp only: struct_eq_refl simp_thms)
qed

theorem backfillV2WithObsolescenceNotice_overwrites_witness:
  "accepts v2 v2Card \<and>
   field (backfillV2WithObsolescenceNotice v2Card) ''name'' =
     JStr ''This is a V2 Character Card. Please update your frontend.'' \<and>
   field (backfillV2WithObsolescenceNotice v2Card) ''mes_example'' =
     JStr ''This is a V2 Character Card. Please update your frontend.'' \<and>
   field (backfillV2WithObsolescenceNotice v2Card) ''data'' = v2CardData \<and>
   field v2CardData ''name'' = JStr ''Mary''"
proof -
  have h: "accepts v2 v2Card"
    by code_simp
  have f: "field v2Card ''data'' = v2CardData" "field v2CardData ''name'' = JStr ''Mary''"
    by (simp_all add: field_def v2Card_def v2CardData_def)
  from backfillV2WithObsolescenceNotice_overwrites [OF h] h f show ?thesis
    by (simp add: v1_fields_def)
qed

section \<open>The dual-format parser\<close>

text \<open>
  C4. For every input on which both the V2 and the V1 validation fail, \<open>parseToV2\<close>
  throws the error of the V2 attempt, and \<open>safeParseToV2\<close> returns a failure carrying
  that same error; the error of the V1 attempt is dropped.
\<close>

theorem double_failure_reports_v2_error:
  assumes "safeParse v2 x = SafeParseError e2" and "safeParse v1 x = SafeParseError e1"
  shows "parseToV2 x = Inl e2 \<and> safeParseToV2 x = SafeParseError e2"
  using assms by (simp add: parseToV2_def safeParseToV2_def)

theorem double_failure_reports_v2_error_witness:
  "safeParse v2 (JObj []) = SafeParseError (ZodError
      [InvalidLiteral (JStr ''chara_card_v2'') JUndefined [PKey ''spec''],
       InvalidType TString TUndefined [PKey ''spec_version''],
       InvalidType TObject TUndefined [PKey ''data'']]) \<and>
   safeParse v1 (JObj []) = SafeParseError (ZodError
      [InvalidType TString TUndefined [PKey ''name''],
       InvalidType TString TUndefined [PKey ''description''],
       InvalidType TString TUndefined [PKey ''personality''],
       InvalidType TString TUndefined [PKey ''scenario''],
       InvalidType TString TUndefined [PKey ''first_mes''],
       InvalidType TString TUndefined [PKey ''mes_example'']]) \<and>
   parseToV2 (JObj []) = Inl (ZodError
      [InvalidLiteral (JStr ''chara_card_v2'') JUndefined [PKey ''spec''],
       InvalidType TString TUndefined [PKey ''spec_version''],
       InvalidType TObject TUndefined [PKey ''data'']]) \<and>
   safeParseToV2 (JObj []) = SafeParseError (ZodError
      [InvalidLiteral (JStr ''chara_card_v2'') JUndefined [PKey ''spec''],
       InvalidType TString TUndefined [PKey ''spec_version''],
       InvalidType TObject TUndefined [PKey ''data'']])"
proof -
  have h2: "safeParse v2 (JObj []) = SafeParseError (ZodError
      [InvalidLiteral (JStr ''chara_card_v2'') JUndefined [PKey ''spec''],
       InvalidType TString TUndefined [PKey ''spec_version''],
       InvalidType TObject TUndefined [PKey ''data'']])"
    by code_simp
  have h1: "safeParse v1 (JObj []) = SafeParseError (ZodError
      [InvalidType TString TUndefined [PKey ''name''],
       InvalidType TString TUndefined [PKey ''description''],
       InvalidType TString TUndefined [PKey ''personality''],
       InvalidType TString TUndefined [PKey ''scenario''],
       InvalidType TString TUndefined [PKey ''first_mes''],
       InvalidType TString TUndefined [PKey ''mes_example'']])"
    by code_simp
  from double_failure_reports_v2_error [OF h2 h1] h2 h1 show ?thesis
    by (intro conjI) (simp_all only:)
qed

text \<open>The non-throwing parser returns what the throwing one returns or throws.\<close>

lemma safeParseToV2_eq:
  "safeParseToV2 x =
     (case parseToV2 x of Inl e \<Rightarrow> SafeParseError e | Inr v \<Rightarrow> SafeParseSuccess v)"
proof (cases "parse v2 [] x")
  case (Inr v)
  then show ?thesis
    by (simp add: safeParseToV2_def parseToV2_def safeParse_def)
next
  case v2_fails: (Inl is2)
  show ?thesis
  proof (cases "parse v1 [] x")
    case (Inl is1)
    with v2_fails show ?thesis
      by (simp add: safeParseToV2_def parseToV2_def safeParse_def)
  next
    case (Inr d1)
    from parse_v1_Inr [OF Inr] obtain n de pe sc fm me where
      d1: "d1 = JObj [(''name'', JStr n), (''description'', JStr de), (''personality'', JStr pe),
                      (''scenario'', JStr sc), (''first_mes'', JStr fm), (''mes_example'', JStr me)]"
      by (elim exE conjE)
    have "parse v2 [] (v1ToV2 d1) = Inr (v1ToV2 d1)"
      unfolding d1 by (rule parse_v2_v1ToV2)
    with v2_fails Inr show ?thesis
      by (simp add: safeParseToV2_def parseToV2_def safeParse_def)
  qed
qed

text \<open>
  C8. For every input \<open>x\<close> the throwing and the non-throwing parser agree: when
  \<open>parseToV2 x\<close> returns \<open>v\<close>, \<open>safeParseToV2 x\<close> returns a success whose value is
  structurally equal to \<open>v\<close>, and the other way round; and \<open>parseToV2 x\<close> throws \<open>e\<close>
  exactly when \<open>safeParseToV2 x\<close> returns a failure carrying \<open>e\<close>.
\<close>

theorem parseToV2_safeParseToV2_agree:
  "(\<forall>v. parseToV2 x = Inr v \<longrightarrow>
        (\<exists>v'. safeParseToV2 x = SafeParseSuccess v' \<and> struct_eq v' v)) \<and>
   (\<forall>v'. safeParseToV2 x = SafeParseSuccess v' \<longrightarrow>
        (\<exists>v. parseToV2 x = Inr v \<and> struct_eq v' v)) \<and>
   (\<forall>e. parseToV2 x = Inl e \<longleftrightarrow> safeParseToV2 x = SafeParseError e)"
proof (cases "parseToV2 x")
  case (Inl e)
  then show ?thesis
    by (simp add: safeParseToV2_eq)
next
  case (Inr v)
  then show ?thesis
    by (simp add: safeParseToV2_eq struct_eq_refl)
qed

theorem parseToV2_safeParseToV2_agree_witness:
  "parseToV2 v1Card = Inr (v1ToV2 v1Card) \<and>
   (\<exists>v'. safeParseToV2 v1Card = SafeParseSuccess v' \<and> struct_eq v' (v1ToV2 v1Card)) \<and>
   safeParseToV2 v2Card = SafeParseSuccess v2Card \<and>
   (\<exists>v. parseToV2 v2Card = Inr v \<and> struct_eq v2Card v) \<and>
   parseToV2 (JObj [(''spec'', JStr ''x'')]) =
     Inl (ZodError
      [InvalidLiteral (JStr ''chara_card_v2'') (JStr ''x'') [PKey ''spec''],
       InvalidType TString TUndefined [PKey ''spec_version''],
       InvalidType TObject TUndefined [PKey ''data'']]) \<and>
   safeParseToV2 (JObj [(''spec'', JStr ''x'')]) =
     SafeParseError (ZodError
      [InvalidLiteral (JStr ''chara_card_v2'') (JStr ''x'') [PKey ''spec''],
       InvalidType TString TUndefined [PKey ''spec_version''],
       InvalidType TObject TUndefined [PKey ''data'']])"
proof -
  have a: "parseToV2 v1Card = Inr (v1ToV2 v1Card)"
    by code_simp
  have b: "safeParseToV2 v2Card = SafeParseSuccess v2Card"
    by code_simp
  have c: "parseToV2 (JObj [(''spec'', JStr ''x'')]) =
     Inl (ZodError
      [InvalidLiteral (JStr ''chara_card_v2'') (JStr ''x'') [PKey ''spec''],
       InvalidType TString TUndefined [PKey ''spec_version''],
       InvalidType TObject TUndefined [PKey ''data'']])"
    by code_simp
  from a parseToV2_safeParseToV2_agree [of v1Card]
  have a': "\<exists>v'. safeParseToV2 v1Card = SafeParseSuccess v' \<and> struct_eq v' (v1ToV2 v1Card)"
    by (simp only: simp_thms)
  from b parseToV2_safeParseToV2_agree [of v2Card]
  have b': "\<exists>v. parseToV2 v2Card = Inr v \<and> struct_eq v2Card v"
    by (simp only: simp_thms)
  from c parseToV2_safeParseToV2_agree [of "JObj [(''spec'', JStr ''x'')]"]
  have c': "safeParseToV2 (JObj [(''spec'', JStr ''x'')]) =
     SafeParseError (ZodError
      [InvalidLiteral (JStr ''chara_card_v2'') (JStr ''x'') [PKey ''spec''],
       InvalidType TString TUndefined [PKey ''spec_version''],
       InvalidType TObject TUndefined [PKey ''data'']])"
    by (simp only: simp_thms)
  from a a' b b' c c' show ?thesis
    by (intro conjI)
qed

section \<open>The validators compared\<close>

lemma isl_parse_ZObject_not_object:
  "getParsedType d \<noteq> TObject \<Longrightarrow> isl (parse (ZObject shape) p d)"
  by simp

text \<open>\<open>backfilledV2\<close> accepts exactly what both \<open>v1\<close> and \<open>v2\<close> accept.\<close>

lemma accepts_backfilledV2_iff: "accepts backfilledV2 x \<longleftrightarrow> accepts v1 x \<and> accepts v2 x"
proof -
  obtain sh where v2: "v2 = ZObject [(''spec'', ZLiteral ''chara_card_v2''),
      (''spec_version'', ZString), (''data'', ZObject sh)]"
    and bf: "backfilledV2 = ZObject
            [(''name'', ZString),
             (''description'', ZString),
             (''personality'', ZString),
             (''scenario'', ZString),
             (''first_mes'', ZString),
             (''mes_example'', ZString),
             (''spec'', ZLiteral ''chara_card_v2''),
             (''spec_version'', ZString),
             (''data'', ZObject sh)]"
    by (rule v2_shape)
  show ?thesis
  proof (cases "getParsedType x = TObject")
    case False
    then show ?thesis
      unfolding accepts_iff v2 bf v1_def by (simp only: isl_parse_ZObject_not_object simp_thms)
  next
    case True
    then obtain kvs where x: "x = JObj kvs"
      by (auto simp: getParsedType_TObject)
    show ?thesis
      unfolding accepts_iff v2 bf v1_def x isl_parse_ZObject
      by (simp del: parse.simps)
  qed
qed

text \<open>
  C9. The \<open>backfilledV2\<close> validator is strictly more restrictive than the \<open>v2\<close>
  validator: whatever \<open>backfilledV2\<close> accepts, \<open>v2\<close> accepts, and some value (a valid V2
  card without the six top-level V1 fields) is accepted by \<open>v2\<close> and rejected by
  \<open>backfilledV2\<close>.
\<close>

theorem backfilledV2_stricter_than_v2:
  "(\<forall>x. accepts backfilledV2 x \<longrightarrow> accepts v2 x) \<and>
   (\<exists>x. accepts v2 x \<and> (\<forall>k \<in> set v1_fields. field x k = JUndefined) \<and>
        \<not> accepts backfilledV2 x)"
proof -
  have "accepts v2 v2Card \<and> (\<forall>k \<in> set v1_fields. field v2Card k = JUndefined) \<and>
        \<not> accepts backfilledV2 v2Card"
    by code_simp
  then have "\<exists>x. accepts v2 x \<and> (\<forall>k \<in> set v1_fields. field x k = JUndefined) \<and>
        \<not> accepts backfilledV2 x" ..
  moreover have "\<forall>x. accepts backfilledV2 x \<longrightarrow> accepts v2 x"
    by (simp add: accepts_backfilledV2_iff)
  ultimately show ?thesis
    by (intro conjI)
qed

theorem backfilledV2_stricter_than_v2_witness:
  "accepts backfilledV2 v2CardWithBackfilledV1Fields \<and> accepts v2 v2CardWithBackfilledV1Fields"
proof -
  have h: "accepts backfilledV2 v2CardWithBackfilledV1Fields"
    by code_simp
  from backfilledV2_stricter_than_v2 have "accepts v2 v2CardWithBackfilledV1Fields"
    using h by (elim conjE allE [of _ v2CardWithBackfilledV1Fields] impE)
  with h show ?thesis ..
qed

section \<open>Unknown fields\<close>

lemma parse_v2_put_unknown:
  assumes "k \<noteq> ''spec''" "k \<noteq> ''spec_version''" "k \<noteq> ''data''"
  shows "parse v2 p (JObj (put k v kvs)) = parse v2 p (JObj kvs)"
proof -
  obtain sh where v2: "v2 = ZObject [(''spec'', ZLiteral ''chara_card_v2''),
      (''spec_version'', ZString), (''data'', ZObject sh)]"
    by (rule v2_shape)
  show ?thesis
    unfolding v2
  proof (rule parse_ZObject_cong)
    fix k'
    assume "has_key [(''spec'', ZLiteral ''chara_card_v2''), (''spec_version'', ZString),
                     (''data'', ZObject sh)] k'"
    then have "k' \<noteq> k"
      using assms by auto
    then show "get (put k v kvs) k' = get kvs k' \<and> has_key (put k v kvs) k' = has_key kvs k'"
      by (simp add: get_put has_key_put)
  qed
qed

text \<open>
  C1, as the code has it. For every input the \<open>v2\<close> validator accepts, with or without
  unknown extra top-level fields, validation succeeds, and the extra fields are
  stripped, not preserved: the output of the validator, which is also the value
  \<open>parseToV2\<close> returns, has exactly the top-level fields \<open>spec\<close>, \<open>spec_version\<close> and
  \<open>data\<close>, with the input's \<open>spec\<close> and \<open>spec_version\<close>, and it stays the same when an
  unknown top-level field is added to the input or changed.
\<close>

theorem v2_strips_unknown_top_level_fields:
  assumes "accepts v2 d"
  shows "\<exists>dat. safeParse v2 d = SafeParseSuccess
                  (JObj [(''spec'', field d ''spec''),
                         (''spec_version'', field d ''spec_version''),
                         (''data'', dat)]) \<and>
               parseToV2 d = Inr
                  (JObj [(''spec'', field d ''spec''),
                         (''spec_version'', field d ''spec_version''),
                         (''data'', dat)]) \<and>
               (\<forall>k v. k \<notin> {''spec'', ''spec_version'', ''data''} \<longrightarrow>
                  safeParse v2 (JObj (put k v (props_of d))) = safeParse v2 d)"
proof -
  from accepts_Inr [OF assms] obtain out where out: "parse v2 [] d = Inr out" ..
  from parse_v2_Inr [OF out] obtain kvs sv okvs where
    d: "d = JObj kvs" and spec: "get kvs ''spec'' = JStr ''chara_card_v2''"
    and sv: "get kvs ''spec_version'' = JStr sv"
    and o: "out = JObj [(''spec'', JStr ''chara_card_v2''), (''spec_version'', JStr sv),
                        (''data'', JObj okvs)]"
    by (elim exE conjE)
  let ?out = "JObj [(''spec'', field d ''spec''), (''spec_version'', field d ''spec_version''),
                    (''data'', JObj okvs)]"
  have eq: "out = ?out"
    by (simp add: o field_def d spec sv)
  have a: "safeParse v2 d = SafeParseSuccess ?out"
    using out eq by (simp add: safeParse_def)
  then have b: "parseToV2 d = Inr ?out"
    by (simp add: parseToV2_def)
  have c: "\<forall>k v. k \<notin> {''spec'', ''spec_version'', ''data''} \<longrightarrow>
                  safeParse v2 (JObj (put k v (props_of d))) = safeParse v2 d"
    by (simp add: safeParse_def d parse_v2_put_unknown)
  from a b c show ?thesis
    by (intro exI [of _ "JObj okvs"] conjI)
qed

theorem v2_strips_unknown_top_level_fields_witness:
  "accepts v2 v2Card \<and>
   safeParse v2 v2Card = SafeParseSuccess v2Card \<and>
   JObj (put ''nickname'' (JStr ''Mimi'') (props_of v2Card)) = v2CardWithNickname \<and>
   safeParse v2 v2CardWithNickname = SafeParseSuccess v2Card"
proof -
  have h: "accepts v2 v2Card"
    by code_simp
  have s: "safeParse v2 v2Card = SafeParseSuccess v2Card"
    by code_simp
  have p: "JObj (put ''nickname'' (JStr ''Mimi'') (props_of v2Card)) = v2CardWithNickname"
    by (simp add: v2Card_def v2CardWithNickname_def)
  from v2_strips_unknown_top_level_fields [OF h] obtain dat where
    every: "\<forall>k v. k \<notin> {''spec'', ''spec_version'', ''data''} \<longrightarrow>
                  safeParse v2 (JObj (put k v (props_of v2Card))) = safeParse v2 v2Card"
    by (elim exE conjE)
  have unknown: "''nickname'' \<notin> {''spec'', ''spec_version'', ''data''}"
    by simp
  have "safeParse v2 (JObj (put ''nickname'' (JStr ''Mimi'') (props_of v2Card)))
          = safeParse v2 v2Card"
    by (rule every [rule_format, OF unknown])
  with h s p show ?thesis
    by (simp only: simp_thms)
qed

text \<open>
  C1 as first stated, with the extra fields preserved in the output, fails on the test
  card with one more field, \<open>nickname\<close>: the validator accepts it and returns the card
  without \<open>nickname\<close>, which is not structurally equal to the input.
\<close>

theorem v2_extra_field_not_preserved:
  "accepts v2 v2CardWithNickname \<and>
   field v2CardWithNickname ''nickname'' = JStr ''Mimi'' \<and>
   safeParse v2 v2CardWithNickname = SafeParseSuccess v2Card \<and>
   parseToV2 v2CardWithNickname = Inr v2Card \<and>
   field v2Card ''nickname'' = JUndefined \<and>
   \<not> struct_eq v2Card v2CardWithNickname"
  by code_simp

text \<open>
  C2, as the code has it. For every document \<open>d\<close> that the \<open>v2\<close> validator accepts,
  that has no fields beyond those of the V2 schema (at the top level, in \<open>data\<close>, in the
  character book and in its entries) and no property named \<open>__proto__\<close> in an
  \<open>extensions\<close> map, \<open>parseToV2 d\<close> succeeds and its result is structurally equal to
  \<open>d\<close>.
\<close>

theorem parseToV2_round_trip:
  assumes "accepts v2 d" and "no_extra_fields v2 d" and "no_proto_key v2 d"
  shows "\<exists>out. parseToV2 d = Inr out \<and> struct_eq out d"
proof -
  from accepts_Inr [OF assms(1)] obtain out where out: "parse v2 [] d = Inr out" ..
  then have "parseToV2 d = Inr out"
    by (simp add: parseToV2_def safeParse_def)
  moreover have "struct_eq out d"
    by (rule parse_no_extra_fields [OF plain_keys_v2 assms(2) assms(3) out])
  ultimately show ?thesis
    by (intro exI [of _ out] conjI)
qed

theorem parseToV2_round_trip_witness:
  "accepts v2 (cardWithExtensions (JObj [(''a'', JNum 1)])) \<and>
   no_extra_fields v2 (cardWithExtensions (JObj [(''a'', JNum 1)])) \<and>
   no_proto_key v2 (cardWithExtensions (JObj [(''a'', JNum 1)])) \<and>
   (\<exists>out. parseToV2 (cardWithExtensions (JObj [(''a'', JNum 1)])) = Inr out \<and>
      struct_eq out (cardWithExtensions (JObj [(''a'', JNum 1)])))"
proof -
  have h: "accepts v2 (cardWithExtensions (JObj [(''a'', JNum 1)]))"
    by code_simp
  have n: "no_extra_fields v2 (cardWithExtensions (JObj [(''a'', JNum 1)]))"
    by code_simp
  have k: "no_proto_key v2 (cardWithExtensions (JObj [(''a'', JNum 1)]))"
    by code_simp
  from h n k parseToV2_round_trip [OF h n k] show ?thesis
    by (intro conjI)
qed

text \<open>
  C2 as first stated, for every document the \<open>v2\<close> validator accepts, fails on the
  backfilled card of the test suite: \<open>v2\<close> accepts it, and \<open>parseToV2\<close> returns the
  card without its six top-level fields.
\<close>

theorem parseToV2_drops_backfilled_fields:
  "accepts v2 v2CardWithBackfilledV1Fields \<and>
   field v2CardWithBackfilledV1Fields ''name'' = JStr ''Mary'' \<and>
   parseToV2 v2CardWithBackfilledV1Fields = Inr v2Card \<and>
   field v2Card ''name'' = JUndefined \<and>
   \<not> struct_eq v2Card v2CardWithBackfilledV1Fields"
  by code_simp

text \<open>
  A property \<open>__proto__\<close> of \<open>extensions\<close> is lost too, in a card that has no field
  beyond the schema: the condition on \<open>__proto__\<close> is needed.
\<close>

lemma parseToV2_drops_proto_key:
  "accepts v2 v2CardProto \<and> no_extra_fields v2 v2CardProto \<and>
   parseToV2 v2CardProto = Inr (cardWithExtensions (JObj [(''a'', JNum 1)])) \<and>
   \<not> struct_eq (cardWithExtensions (JObj [(''a'', JNum 1)])) v2CardProto"
  by code_simp

section \<open>Backfilling and parsing again\<close>

lemma parse_v2_backfilled:
  "parse v2 p (JObj (assign_all kvs
      [(''name'', a), (''description'', b), (''personality'', c), (''scenario'', e),
       (''first_mes'', f), (''mes_example'', g)])) = parse v2 p (JObj kvs)"
  by (simp add: assign_all_def parse_v2_put_unknown)

text \<open>
  C10, as the code has it. For every V2 document \<open>d\<close> whose fields are exactly those of
  the V2 schema and which has no property named \<open>__proto__\<close> in an \<open>extensions\<close> map,
  \<open>backfillV2 d\<close> returns a card that carries the six V1 fields of \<open>d.data\<close> at the top
  level, and \<open>parseToV2\<close> succeeds on that card with a result that has none of the six
  top-level fields and is structurally equal to \<open>d\<close>: V2 validation removes again what
  \<open>backfillV2\<close> added.
\<close>

theorem backfillV2_then_parseToV2:
  assumes "accepts v2 d" and "no_extra_fields v2 d" and "no_proto_key v2 d"
  shows "\<exists>b out. backfillV2 d = Inr b \<and>
           (\<forall>k \<in> set v1_fields. field b k = field (field d ''data'') k) \<and>
           parseToV2 b = Inr out \<and>
           (\<forall>k \<in> set v1_fields. field out k = JUndefined) \<and> struct_eq out d"
proof -
  from accepts_Inr [OF assms(1)] obtain out where out: "parse v2 [] d = Inr out" ..
  from parse_v2_Inr [OF out] obtain kvs sv dkvs okvs where
    d: "d = JObj kvs" and dat: "get kvs ''data'' = JObj dkvs"
    and o: "out = JObj [(''spec'', JStr ''chara_card_v2''), (''spec_version'', JStr sv),
                        (''data'', JObj okvs)]"
    by (elim exE conjE)
  let ?b = "JObj (assign_all kvs
            [(''name'', field (JObj dkvs) ''name''),
             (''description'', field (JObj dkvs) ''description''),
             (''personality'', field (JObj dkvs) ''personality''),
             (''scenario'', field (JObj dkvs) ''scenario''),
             (''first_mes'', field (JObj dkvs) ''first_mes''),
             (''mes_example'', field (JObj dkvs) ''mes_example'')])"
  have b: "backfillV2 d = Inr ?b"
    by (simp add: d backfillV2_obj dat)
  have added: "\<forall>k \<in> set v1_fields. field ?b k = field (field d ''data'') k"
    by (simp add: v1_fields_def field_def d dat assign_all_def get_six_put)
  have "parse v2 [] ?b = parse v2 [] d"
    unfolding d by (rule parse_v2_backfilled)
  with out have p: "parseToV2 ?b = Inr out"
    by (simp add: parseToV2_def safeParse_def)
  have gone: "\<forall>k \<in> set v1_fields. field out k = JUndefined"
    by (simp add: o v1_fields_def field_def)
  have "struct_eq out d"
    by (rule parse_no_extra_fields [OF plain_keys_v2 assms(2) assms(3) out])
  with b added p gone show ?thesis
    by (intro exI [of _ ?b] exI [of _ out] conjI)
qed

theorem backfillV2_then_parseToV2_witness:
  "accepts v2 v2Card \<and> no_extra_fields v2 v2Card \<and> no_proto_key v2 v2Card \<and>
   backfillV2 v2Card = Inr v2CardBackfilled \<and>
   struct_eq v2CardBackfilled v2CardWithBackfilledV1Fields \<and>
   field v2CardBackfilled ''name'' = JStr ''Mary'' \<and>
   (\<exists>out. parseToV2 v2CardBackfilled = Inr out \<and> field out ''name'' = JUndefined \<and>
      struct_eq out v2Card)"
proof -
  have h: "accepts v2 v2Card"
    by code_simp
  have n: "no_extra_fields v2 v2Card"
    by code_simp
  have k: "no_proto_key v2 v2Card"
    by code_simp
  have b: "backfillV2 v2Card = Inr v2CardBackfilled"
    by code_simp
  have e: "struct_eq v2CardBackfilled v2CardWithBackfilledV1Fields"
    by code_simp
  have f: "field v2CardBackfilled ''name'' = JStr ''Mary''"
    by code_simp
  from backfillV2_then_parseToV2 [OF h n k] obtain c out where
    "backfillV2 v2Card = Inr c" "parseToV2 c = Inr out"
    "\<forall>k \<in> set v1_fields. field out k = JUndefined" "struct_eq out v2Card"
    by (elim exE conjE)
  with b have "parseToV2 v2CardBackfilled = Inr out \<and> field out ''name'' = JUndefined \<and>
      struct_eq out v2Card"
    by (simp add: v1_fields_def)
  then have "\<exists>out. parseToV2 v2CardBackfilled = Inr out \<and> field out ''name'' = JUndefined \<and>
      struct_eq out v2Card" ..
  with h n k b e f show ?thesis
    by (intro conjI)
qed

text \<open>
  C10 as first stated, for every V2 document with exactly the fields of the schema,
  fails on the card whose \<open>extensions\<close> are \<open>{"a": 1, "__proto__": 1}\<close>: it has no
  field beyond the schema, \<open>backfillV2\<close> returns it with the six fields added, and
  \<open>parseToV2\<close> returns the card with \<open>extensions\<close> \<open>{"a": 1}\<close>, which is not
  structurally equal to the card.
\<close>

theorem backfillV2_then_parseToV2_drops_proto_key:
  "accepts v2 v2CardProto \<and> no_extra_fields v2 v2CardProto \<and>
   field (field v2CardProto ''data'') ''extensions'' =
     JObj [(''a'', JNum 1), (''__proto__'', JNum 1)] \<and>
   backfillV2 v2CardProto = Inr v2CardProtoBackfilled \<and>
   parseToV2 v2CardProtoBackfilled = Inr (cardWithExtensions (JObj [(''a'', JNum 1)])) \<and>
   \<not> struct_eq (cardWithExtensions (JObj [(''a'', JNum 1)])) v2CardProto"
  by code_simp

section \<open>The discriminant\<close>

text \<open>
  C7, as the code has it. Let \<open>d\<close> be identical to a valid V2 document except that its
  \<open>spec\<close> holds a value other than \<open>chara_card_v2\<close>. The \<open>v2\<close> validator fails on \<open>d\<close>.
  When the \<open>v1\<close> validator fails on \<open>d\<close> too, \<open>parseToV2 d\<close> throws the error of the \<open>v2\<close>
  validator and \<open>safeParseToV2 d\<close> returns a failure carrying it. When the \<open>v1\<close> validator
  accepts \<open>d\<close> (it has the six V1 fields at the top level, as a backfilled card has), both
  fall back to V1 and succeed.
\<close>

theorem wrong_spec_fails_v2:
  assumes "accepts v2 (JObj kvs)" and "s \<noteq> JStr ''chara_card_v2''"
  shows "\<not> accepts v2 (JObj (put ''spec'' s kvs)) \<and>
         (\<not> accepts v1 (JObj (put ''spec'' s kvs)) \<longrightarrow>
            (\<exists>e. safeParse v2 (JObj (put ''spec'' s kvs)) = SafeParseError e \<and>
                 parseToV2 (JObj (put ''spec'' s kvs)) = Inl e \<and>
                 safeParseToV2 (JObj (put ''spec'' s kvs)) = SafeParseError e)) \<and>
         (accepts v1 (JObj (put ''spec'' s kvs)) \<longrightarrow>
            (\<exists>v. parseToV2 (JObj (put ''spec'' s kvs)) = Inr v \<and>
                 safeParseToV2 (JObj (put ''spec'' s kvs)) = SafeParseSuccess v))"
proof -
  let ?d = "JObj (put ''spec'' s kvs)"
  from assms(2) have "get (put ''spec'' s kvs) ''spec'' \<noteq> JStr ''chara_card_v2''"
    by (simp add: get_put)
  then have rejected: "isl (parse v2 [] ?d)"
    by (rule isl_parse_v2_spec)
  then obtain is2 where is2: "parse v2 [] ?d = Inl is2"
    by (cases "parse v2 [] ?d") simp_all
  have a: "\<not> accepts v2 ?d"
    using rejected by (simp add: accepts_iff)
  have b: "\<exists>e. safeParse v2 ?d = SafeParseError e \<and> parseToV2 ?d = Inl e \<and>
               safeParseToV2 ?d = SafeParseError e" if "\<not> accepts v1 ?d"
  proof -
    from that obtain is1 where "parse v1 [] ?d = Inl is1"
      by (cases "parse v1 [] ?d") (simp_all add: accepts_iff)
    with is2 have "safeParse v2 ?d = SafeParseError (ZodError is2) \<and>
        parseToV2 ?d = Inl (ZodError is2) \<and> safeParseToV2 ?d = SafeParseError (ZodError is2)"
      by (simp add: safeParseToV2_eq parseToV2_def safeParse_def)
    then show ?thesis ..
  qed
  have c: "\<exists>v. parseToV2 ?d = Inr v \<and> safeParseToV2 ?d = SafeParseSuccess v" if "accepts v1 ?d"
  proof -
    from accepts_Inr [OF that] obtain d1 where "parse v1 [] ?d = Inr d1" ..
    with is2 have "parseToV2 ?d = Inr (v1ToV2 d1) \<and>
        safeParseToV2 ?d = SafeParseSuccess (v1ToV2 d1)"
      by (simp add: safeParseToV2_eq parseToV2_def safeParse_def)
    then show ?thesis ..
  qed
  from a b c show ?thesis
    by (intro conjI impI)
qed

theorem wrong_spec_fails_v2_witness:
  "accepts v2 v2Card \<and> JStr ''x'' \<noteq> JStr ''chara_card_v2'' \<and>
   JObj (put ''spec'' (JStr ''x'') (props_of v2Card)) = v2CardSpecX \<and>
   \<not> accepts v2 v2CardSpecX \<and> \<not> accepts v1 v2CardSpecX \<and>
   (\<exists>e. safeParse v2 v2CardSpecX = SafeParseError e \<and> parseToV2 v2CardSpecX = Inl e \<and>
        safeParseToV2 v2CardSpecX = SafeParseError e)"
proof -
  have h: "accepts v2 (JObj (props_of v2Card))"
    by code_simp
  have h': "accepts v2 v2Card"
    by code_simp
  have x: "JStr ''x'' \<noteq> JStr ''chara_card_v2''"
    by simp
  have p: "JObj (put ''spec'' (JStr ''x'') (props_of v2Card)) = v2CardSpecX"
    by code_simp
  have n1: "\<not> accepts v1 v2CardSpecX"
    by code_simp
  from wrong_spec_fails_v2 [OF h x, unfolded p] n1
  have "\<not> accepts v2 v2CardSpecX \<and>
        (\<exists>e. safeParse v2 v2CardSpecX = SafeParseError e \<and> parseToV2 v2CardSpecX = Inl e \<and>
             safeParseToV2 v2CardSpecX = SafeParseError e)"
    by (simp only: simp_thms)
  with h' x p n1 show ?thesis
    by (simp only: simp_thms)
qed

text \<open>
  C7 as first stated, with \<open>parseToV2\<close> always throwing, fails on the backfilled card
  of the test suite with \<open>spec\<close> set to \<open>x\<close>: \<open>v2\<close> rejects it, \<open>v1\<close> accepts it, and
  \<open>parseToV2\<close> returns the V2 card made from its six top-level fields.
\<close>

theorem wrong_spec_backfilled_card_parses:
  "accepts v2 v2CardWithBackfilledV1Fields \<and>
   JObj (put ''spec'' (JStr ''x'') (props_of v2CardWithBackfilledV1Fields)) = backfilledCardSpecX \<and>
   field backfilledCardSpecX ''spec'' = JStr ''x'' \<and>
   \<not> accepts v2 backfilledCardSpecX \<and>
   accepts v1 backfilledCardSpecX \<and>
   parseToV2 backfilledCardSpecX = Inr (v1ToV2 maryV1Card) \<and>
   safeParseToV2 backfilledCardSpecX = SafeParseSuccess (v1ToV2 maryV1Card)"
  by code_simp

end
